theory Spec2Isabelle
  imports Complex_Main
begin

section \<open>Text helpers shared by the tutor adapter and the dialogue controller\<close>

text \<open>
  Source strings are modelled as \<^typ>\<open>string\<close>, one \<^typ>\<open>char\<close> per code unit, and the
  development covers ASCII text: letter case is the ASCII one and white space is the ASCII
  white space that \<^verbatim>\<open>String.prototype.trim\<close> and the regular expression class \<^verbatim>\<open>\s\<close> remove
  (tab, line feed, vertical tab, form feed, carriage return, space).
\<close>

definition isWhiteSpace :: "char \<Rightarrow> bool" where
  "isWhiteSpace c = (c \<in> set [CHR 0x09, CHR 0x0A, CHR 0x0B, CHR 0x0C, CHR 0x0D, CHR 0x20])"

definition trimStart :: "string \<Rightarrow> string" where
  "trimStart s = dropWhile isWhiteSpace s"

definition trimEnd :: "string \<Rightarrow> string" where
  "trimEnd s = rev (dropWhile isWhiteSpace (rev s))"

definition trim :: "string \<Rightarrow> string" where
  "trim s = trimEnd (trimStart s)"

definition toLowerCaseChar :: "char \<Rightarrow> char" where
  "toLowerCaseChar c =
     (let n = (of_char c :: nat) in if 65 \<le> n \<and> n \<le> 90 then char_of (n + 32) else c)"

definition toLowerCase :: "string \<Rightarrow> string" where
  "toLowerCase s = map toLowerCaseChar s"

definition startsWith :: "string \<Rightarrow> string \<Rightarrow> bool" where
  "startsWith s p = (take (length p) s = p)"

text \<open>\<^verbatim>\<open>s.includes(p)\<close>: \<open>p\<close> occurs in \<open>s\<close> as a contiguous run.\<close>

fun includes_str :: "string \<Rightarrow> string \<Rightarrow> bool" where
  "includes_str [] p = (p = [])"
| "includes_str (c # cs) p = (startsWith (c # cs) p \<or> includes_str cs p)"

section \<open>The tutor adapter (services/gemini.ts)\<close>

datatype QualityLevel = strong | partial | needs_work

datatype ResponseEvaluation = ResponseEvaluation (quality: QualityLevel) (feedback: string)

text \<open>
  A value as \<^verbatim>\<open>JSON.parse\<close> returns it. The parser itself, the model call and the removal of
  a fenced code block around the reply are outside the model: \<open>evaluateResponse\<close> below takes
  what they deliver, \<open>Inl\<close> carrying the message of the error they threw.
\<close>

datatype json =
    JNull
  | JBool bool
  | JNumber rat
  | JString string
  | JArray "json list"
  | JObject "(string \<times> json) list"

text \<open>Property access \<^verbatim>\<open>v.name\<close>; \<open>Inl\<close> is the TypeError of reading a property of null,
  \<open>Inr None\<close> is \<^verbatim>\<open>undefined\<close>. For an object the last entry of a duplicated key wins, as
  in \<^verbatim>\<open>JSON.parse\<close>.\<close>

definition getProperty :: "json \<Rightarrow> string \<Rightarrow> string + json option" where
  "getProperty v name =
     (case v of
        JNull \<Rightarrow> Inl (''Cannot read properties of null (reading '' @ [CHR 0x27] @ name @ [CHR 0x27] @ '')'')
      | JObject kvs \<Rightarrow> Inr (map_of (rev kvs) name)
      | _ \<Rightarrow> Inr None)"

text \<open>\<^verbatim>\<open>!v\<close> for a JSON value or \<^verbatim>\<open>undefined\<close>.\<close>

fun falsy :: "json option \<Rightarrow> bool" where
  "falsy None = True"
| "falsy (Some JNull) = True"
| "falsy (Some (JBool b)) = (\<not> b)"
| "falsy (Some (JNumber n)) = (n = 0)"
| "falsy (Some (JString s)) = (s = [])"
| "falsy (Some (JArray _)) = False"
| "falsy (Some (JObject _)) = False"

fun qualityOfString :: "string \<Rightarrow> QualityLevel option" where
  "qualityOfString s =
     (if s = ''strong'' then Some strong
      else if s = ''partial'' then Some partial
      else if s = ''needs_work'' then Some needs_work
      else None)"

text \<open>\<^verbatim>\<open>['strong', 'partial', 'needs_work'].includes(v)\<close>, returning the label found.\<close>

fun qualityOfJson :: "json option \<Rightarrow> QualityLevel option" where
  "qualityOfJson (Some (JString s)) = qualityOfString s"
| "qualityOfJson _ = None"

definition explanationPhrases :: "string list" where
  "explanationPhrases =
     [''the answer is'', ''the correct answer'', ''this is because'', ''it is'', ''they are'',
      ''this means'']"

definition hasExplanation :: "string \<Rightarrow> bool" where
  "hasExplanation fb = (\<exists>phrase \<in> set explanationPhrases. includes_str (toLowerCase fb) phrase)"

definition explorePrefix :: string where
  "explorePrefix = ''Let'' @ [CHR 0x27] @ ''s explore this further. ''"

text \<open>\<^verbatim>\<open>typeof v === 'string'\<close>, returning the string.\<close>

fun stringOfJson :: "json option \<Rightarrow> string option" where
  "stringOfJson (Some (JString s)) = Some s"
| "stringOfJson _ = None"

text \<open>The body of the inner \<^verbatim>\<open>try\<close> of \<open>evaluateResponse\<close>, from the parsed reply on.\<close>

definition validateEvaluation :: "json \<Rightarrow> string + ResponseEvaluation" where
  "validateEvaluation evaluation =
     (case getProperty evaluation ''quality'' of
        Inl e \<Rightarrow> Inl e
      | Inr q \<Rightarrow>
          (case (falsy q, qualityOfJson q) of
             (False, Some ql) \<Rightarrow>
               (case getProperty evaluation ''feedback'' of
                  Inl e \<Rightarrow> Inl e
                | Inr f \<Rightarrow>
                    (case (falsy f, stringOfJson f) of
                       (False, Some fb) \<Rightarrow>
                         (let fb' = (if hasExplanation fb then explorePrefix @ fb else fb)
                          in Inr (ResponseEvaluation ql (trim fb')))
                     | _ \<Rightarrow> Inl ''Invalid feedback in response''))
           | _ \<Rightarrow> Inl ''Invalid quality value in response''))"

text \<open>
  \<open>evaluateResponse question userAnswer pdfContent difficultyLevel reply\<close>: the input checks,
  then the model call and the parser, whose outcome is \<open>reply\<close>, then the validation above.
  Every error leaves through the outer \<^verbatim>\<open>catch\<close>, errors of the inner \<^verbatim>\<open>try\<close> through both.
\<close>

definition evaluateResponse ::
  "string \<Rightarrow> string \<Rightarrow> string \<Rightarrow> int \<Rightarrow> (string + string + json) \<Rightarrow> string + ResponseEvaluation" where
  "evaluateResponse question userAnswer pdfContent difficultyLevel reply =
     (let failed = (\<lambda>msg. Inl (''Failed to evaluate response: '' @ msg));
          parseFailed = (\<lambda>msg. failed (''Failed to parse evaluation response: '' @ msg))
      in if question = [] \<or> length (trim question) = 0 then failed ''Question is empty''
         else if userAnswer = [] \<or> length (trim userAnswer) = 0 then failed ''User answer is empty''
         else if pdfContent = [] \<or> length (trim pdfContent) = 0 then failed ''PDF content is empty''
         else if difficultyLevel < 1 \<or> difficultyLevel > 4
           then failed ''Difficulty level must be an integer between 1 and 4''
         else
           (case reply of
              Inl apiError \<Rightarrow> failed apiError
            | Inr (Inl syntaxError) \<Rightarrow> parseFailed syntaxError
            | Inr (Inr evaluation) \<Rightarrow>
                (case validateEvaluation evaluation of
                   Inl e \<Rightarrow> parseFailed e
                 | Inr r \<Rightarrow> Inr r)))"

definition encouragementPhrase :: string where
  "encouragementPhrase = ''Ready for the next question?''"

text \<open>\<^verbatim>\<open>.replace(/^(Explanation|Response|Answer):\s*/i, '')\<close>\<close>

definition removePrefixes :: "string \<Rightarrow> string" where
  "removePrefixes s =
     (if startsWith (toLowerCase s) ''explanation:'' then trimStart (drop 12 s)
      else if startsWith (toLowerCase s) ''response:'' then trimStart (drop 9 s)
      else if startsWith (toLowerCase s) ''answer:'' then trimStart (drop 7 s)
      else s)"

definition isQuote :: "char \<Rightarrow> bool" where
  "isQuote c = (c = CHR 0x22 \<or> c = CHR 0x27)"

text \<open>\<^verbatim>\<open>.replace(/^["']|["']$/g, '')\<close>: one quote off the front, one off the end.\<close>

definition removeSurroundingQuotes :: "string \<Rightarrow> string" where
  "removeSurroundingQuotes s =
     (let s1 = (case s of [] \<Rightarrow> [] | c # cs \<Rightarrow> if isQuote c then cs else s)
      in if s1 \<noteq> [] \<and> isQuote (last s1) then butlast s1 else s1)"

definition cleanExplanation :: "string \<Rightarrow> string" where
  "cleanExplanation raw = trim (removeSurroundingQuotes (removePrefixes raw))"

text \<open>
  \<open>generateExplanation question userAnswer pdfContent difficultyLevel reply\<close>, with \<open>reply\<close>
  the outcome of the model call: \<open>Inr\<close> the text of the response, \<open>Inl\<close> the error's message.
\<close>

definition generateExplanation ::
  "string \<Rightarrow> string \<Rightarrow> string \<Rightarrow> int \<Rightarrow> (string + string) \<Rightarrow> string + string" where
  "generateExplanation question userAnswer pdfContent difficultyLevel reply =
     (let failed = (\<lambda>msg. Inl (''Failed to generate explanation: '' @ msg))
      in if question = [] \<or> length (trim question) = 0 then failed ''Question is empty''
         else if userAnswer = [] \<or> length (trim userAnswer) = 0 then failed ''User answer is empty''
         else if pdfContent = [] \<or> length (trim pdfContent) = 0 then failed ''PDF content is empty''
         else if difficultyLevel < 1 \<or> difficultyLevel > 4
           then failed ''Difficulty level must be an integer between 1 and 4''
         else
           (case reply of
              Inl apiError \<Rightarrow> failed apiError
            | Inr responseText \<Rightarrow>
                (let explanation = trim responseText
                 in if explanation = [] \<or> length explanation = 0
                    then failed ''Generated explanation is empty''
                    else
                      (let explanation = cleanExplanation explanation
                       in if \<not> includes_str (toLowerCase explanation) (toLowerCase encouragementPhrase)
                          then Inr (explanation @ '' '' @ encouragementPhrase)
                          else Inr explanation))))"


section \<open>The progress aggregator (backend utils: calculateThinkingScore)\<close>

subsection \<open>Numbers of the program\<close>

text \<open>
  A number of the program is a binary64 floating-point value: a rational that the format
  represents, an infinity, or not-a-number. The sign of zero is not kept: the function
  below never divides by a zero, the only operation whose value depends on that sign.
\<close>

datatype number = Finite rat | PosInfinity | NegInfinity | NotANumber

definition pow2 :: "int \<Rightarrow> rat" where
  "pow2 k = (if 0 \<le> k then 2 ^ nat k else 1 / 2 ^ nat (- k))"

text \<open>The number of binary digits of a positive integer.\<close>

function bitLength :: "int \<Rightarrow> int" where
  "bitLength n = (if n \<le> 0 then 0 else 1 + bitLength (n div 2))"
  by pat_completeness auto

termination
  by (relation "measure nat") auto

declare bitLength.simps [simp del]

text \<open>The exponent \<open>e\<close> with \<open>2 ^ e \<le> |r| < 2 ^ (e + 1)\<close>, for \<open>r \<noteq> 0\<close>.\<close>

definition exponentOf :: "rat \<Rightarrow> int" where
  "exponentOf r =
     (let (a, b) = quotient_of \<bar>r\<bar>;
          k = bitLength a - bitLength b
      in if pow2 k \<le> \<bar>r\<bar> then k else k - 1)"

text \<open>Rounding to the nearest integer, a tie to the even one.\<close>

definition roundHalfEven :: "rat \<Rightarrow> int" where
  "roundHalfEven x =
     (let f = \<lfloor>x\<rfloor>; d = x - of_int f
      in if d < 1 / 2 then f
         else if d > 1 / 2 then f + 1
         else if even f then f else f + 1)"

text \<open>
  The binary64 value of an exact result, rounded to nearest, ties to even: 53 significant
  bits, exponents from -1022 (below that the spacing stays \<open>2 ^ -1074\<close>) to 1023, and an
  infinity where the rounded magnitude reaches \<open>2 ^ 1024\<close>.
\<close>

definition binary64 :: "rat \<Rightarrow> number" where
  "binary64 r =
     (if r = 0 then Finite 0
      else if exponentOf r > 1023 then (if r > 0 then PosInfinity else NegInfinity)
      else
        (let e = max (exponentOf r) (- 1022);
             m = roundHalfEven (r / pow2 (e - 52))
         in if e = 1023 \<and> \<bar>m\<bar> \<ge> 2 ^ 53 then (if r > 0 then PosInfinity else NegInfinity)
            else Finite (of_int m * pow2 (e - 52))))"

fun num_neg :: "number \<Rightarrow> number" where
  "num_neg (Finite a) = Finite (- a)"
| "num_neg PosInfinity = NegInfinity"
| "num_neg NegInfinity = PosInfinity"
| "num_neg NotANumber = NotANumber"

text \<open>\<^verbatim>\<open>x + y\<close>\<close>

fun num_add :: "number \<Rightarrow> number \<Rightarrow> number" where
  "num_add (Finite a) (Finite b) = binary64 (a + b)"
| "num_add NotANumber y = NotANumber"
| "num_add x NotANumber = NotANumber"
| "num_add PosInfinity NegInfinity = NotANumber"
| "num_add NegInfinity PosInfinity = NotANumber"
| "num_add PosInfinity y = PosInfinity"
| "num_add NegInfinity y = NegInfinity"
| "num_add (Finite a) y = y"

text \<open>\<^verbatim>\<open>x - y\<close>\<close>

definition num_sub :: "number \<Rightarrow> number \<Rightarrow> number" where
  "num_sub x y = num_add x (num_neg y)"

text \<open>The sign of a number that is not \<^verbatim>\<open>NaN\<close>: -1, 0 or 1.\<close>

fun num_sgn :: "number \<Rightarrow> int" where
  "num_sgn (Finite a) = (if a > 0 then 1 else if a < 0 then - 1 else 0)"
| "num_sgn PosInfinity = 1"
| "num_sgn NegInfinity = - 1"
| "num_sgn NotANumber = 0"

text \<open>\<^verbatim>\<open>x * y\<close>\<close>

fun num_mul :: "number \<Rightarrow> number \<Rightarrow> number" where
  "num_mul (Finite a) (Finite b) = binary64 (a * b)"
| "num_mul NotANumber y = NotANumber"
| "num_mul x NotANumber = NotANumber"
| "num_mul x y =
     (if num_sgn x * num_sgn y = 0 then NotANumber
      else if num_sgn x * num_sgn y > 0 then PosInfinity else NegInfinity)"

text \<open>\<^verbatim>\<open>x / y\<close>, a zero divisor taken as positive.\<close>

fun num_div :: "number \<Rightarrow> number \<Rightarrow> number" where
  "num_div NotANumber y = NotANumber"
| "num_div x NotANumber = NotANumber"
| "num_div (Finite a) (Finite b) =
     (if b \<noteq> 0 then binary64 (a / b)
      else if a > 0 then PosInfinity else if a < 0 then NegInfinity else NotANumber)"
| "num_div (Finite a) y = Finite 0"
| "num_div x (Finite b) =
     (if (b \<ge> 0) = (x = PosInfinity) then PosInfinity else NegInfinity)"
| "num_div x y = NotANumber"

text \<open>\<^verbatim>\<open>x < y\<close>; every comparison with \<^verbatim>\<open>NaN\<close> is false.\<close>

fun num_lt :: "number \<Rightarrow> number \<Rightarrow> bool" where
  "num_lt (Finite a) (Finite b) = (a < b)"
| "num_lt NotANumber y = False"
| "num_lt x NotANumber = False"
| "num_lt x NegInfinity = False"
| "num_lt PosInfinity y = False"
| "num_lt NegInfinity y = True"
| "num_lt (Finite a) PosInfinity = True"

definition num_gt :: "number \<Rightarrow> number \<Rightarrow> bool" where
  "num_gt x y = num_lt y x"

definition num_le :: "number \<Rightarrow> number \<Rightarrow> bool" where
  "num_le x y = (x \<noteq> NotANumber \<and> y \<noteq> NotANumber \<and> \<not> num_lt y x)"

definition num_ge :: "number \<Rightarrow> number \<Rightarrow> bool" where
  "num_ge x y = num_le y x"

text \<open>\<^verbatim>\<open>Math.min(x, y)\<close> and \<^verbatim>\<open>Math.max(x, y)\<close>\<close>

definition Math_min :: "number \<Rightarrow> number \<Rightarrow> number" where
  "Math_min x y =
     (if x = NotANumber \<or> y = NotANumber then NotANumber else if num_lt y x then y else x)"

definition Math_max :: "number \<Rightarrow> number \<Rightarrow> number" where
  "Math_max x y =
     (if x = NotANumber \<or> y = NotANumber then NotANumber else if num_lt x y then y else x)"

text \<open>\<^verbatim>\<open>Math.round(x)\<close>: the nearest integer, a half rounded up; it is exact.\<close>

fun Math_round :: "number \<Rightarrow> number" where
  "Math_round (Finite a) = Finite (of_int \<lfloor>a + 1 / 2\<rfloor>)"
| "Math_round x = x"

text \<open>The truth value of a number in a condition: zero and \<^verbatim>\<open>NaN\<close> are false.\<close>

fun truthy :: "number \<Rightarrow> bool" where
  "truthy (Finite a) = (a \<noteq> 0)"
| "truthy NotANumber = False"
| "truthy x = True"

subsection \<open>The score\<close>

text \<open>
  An optional argument is an \<open>option\<close>, \<open>None\<close> for \<^verbatim>\<open>undefined\<close>; the default value of
  \<open>totalQuestions\<close> is 1.
\<close>

definition calculateThinkingScore ::
  "number \<Rightarrow> number \<Rightarrow> number option \<Rightarrow> number option \<Rightarrow> number" where
  "calculateThinkingScore correctAnswers hints timeSpentMinutes totalQuestionsArg =
     (let totalQuestions = (case totalQuestionsArg of None \<Rightarrow> Finite 1 | Some n \<Rightarrow> n);
          correctnessScore =
            (if num_gt totalQuestions (Finite 0)
             then num_mul (num_div correctAnswers totalQuestions) (Finite 60)
             else Finite 0);
          hintsPenalty = Math_min (num_mul hints (Finite 2)) (Finite 20);
          timeBonus =
            (case timeSpentMinutes of
               None \<Rightarrow> Finite 10
             | Some t \<Rightarrow>
                 if truthy t \<and> num_gt t (Finite 0) \<and> num_gt totalQuestions (Finite 0) then
                   (let avgTimePerQuestion = num_div t totalQuestions
                    in if num_ge avgTimePerQuestion (Finite 2) \<and> num_le avgTimePerQuestion (Finite 5)
                         then Finite 20
                       else if num_lt avgTimePerQuestion (Finite 2) then Finite 10
                       else if num_le avgTimePerQuestion (Finite 10) then Finite 15
                       else Finite 5)
                 else Finite 10);
          score =
            Math_max (Finite 0)
              (Math_min (Finite 100) (num_add (num_sub correctnessScore hintsPenalty) timeBonus))
      in num_div (Math_round (num_mul score (Finite 10))) (Finite 10))"

subsection \<open>The score as the specification words it, in exact arithmetic\<close>

definition clamp :: "rat \<Rightarrow> rat \<Rightarrow> rat \<Rightarrow> rat" where
  "clamp x lo hi = max lo (min hi x)"

definition roundTo1Decimal :: "rat \<Rightarrow> rat" where
  "roundTo1Decimal x = of_int (round (x * 10)) / 10"

text \<open>
  The average \<open>timeSpentMinutes / totalQuestions\<close> of the specification, not rounded;
  dividing by zero gives what the program's division gives, an infinity or not-a-number.
\<close>

definition exactAverage :: "rat \<Rightarrow> rat \<Rightarrow> number" where
  "exactAverage x y =
     (if y \<noteq> 0 then Finite (x / y)
      else if x > 0 then PosInfinity else if x < 0 then NegInfinity else NotANumber)"

text \<open>
  The specified bonus of an average: 20 on [2,5], 10 below 2, 15 on (5,10], 5 above 10;
  \<open>None\<close> where none of the four cases applies.
\<close>

fun spec_bonusOfAverage :: "number \<Rightarrow> rat option" where
  "spec_bonusOfAverage (Finite a) =
     (if 2 \<le> a \<and> a \<le> 5 then Some 20
      else if a < 2 then Some 10
      else if 5 < a \<and> a \<le> 10 then Some 15
      else if a > 10 then Some 5
      else None)"
| "spec_bonusOfAverage PosInfinity = Some 5"
| "spec_bonusOfAverage NegInfinity = Some 10"
| "spec_bonusOfAverage NotANumber = None"

definition spec_timeBonus :: "rat option \<Rightarrow> rat \<Rightarrow> rat option" where
  "spec_timeBonus timeSpentMinutes totalQuestions =
     (case timeSpentMinutes of
        None \<Rightarrow> Some 10
      | Some t \<Rightarrow> spec_bonusOfAverage (exactAverage t totalQuestions))"

definition spec_thinkingScore :: "rat \<Rightarrow> rat \<Rightarrow> rat option \<Rightarrow> rat \<Rightarrow> rat option" where
  "spec_thinkingScore correctAnswers hints timeSpentMinutes totalQuestions =
     map_option
       (\<lambda>timeBonus.
          roundTo1Decimal
            (clamp ((if totalQuestions = 0 then 0 else (correctAnswers / totalQuestions) * 60)
                    - min (hints * 2) 20 + timeBonus) 0 100))
       (spec_timeBonus timeSpentMinutes totalQuestions)"

subsection \<open>The same formula in the program's arithmetic, with the guards of the code\<close>

definition clamp64 :: "number \<Rightarrow> number \<Rightarrow> number \<Rightarrow> number" where
  "clamp64 x lo hi = Math_max lo (Math_min hi x)"

definition roundTo1Decimal64 :: "number \<Rightarrow> number" where
  "roundTo1Decimal64 x = num_div (Math_round (num_mul x (Finite 10))) (Finite 10)"

text \<open>The bonus of an average: 20 on [2,5], 10 below 2, 15 on (5,10], and 5 otherwise,
  that is above 10 or for an average that is not a number.\<close>

definition bonusOfAverage64 :: "number \<Rightarrow> number" where
  "bonusOfAverage64 a =
     (if num_le (Finite 2) a \<and> num_le a (Finite 5) then Finite 20
      else if num_lt a (Finite 2) then Finite 10
      else if num_lt (Finite 5) a \<and> num_le a (Finite 10) then Finite 15
      else Finite 5)"

text \<open>
  No correctness points unless \<open>totalQuestions > 0\<close>; the flat bonus of 10 when there is no
  time data, or the time is not above 0, or \<open>totalQuestions\<close> is not above 0.
\<close>

definition guarded_thinkingScore :: "number \<Rightarrow> number \<Rightarrow> number option \<Rightarrow> number \<Rightarrow> number" where
  "guarded_thinkingScore correctAnswers hints timeSpentMinutes totalQuestions =
     roundTo1Decimal64
       (clamp64
          (num_add
             (num_sub
                (if num_gt totalQuestions (Finite 0)
                 then num_mul (num_div correctAnswers totalQuestions) (Finite 60)
                 else Finite 0)
                (Math_min (num_mul hints (Finite 2)) (Finite 20)))
             (case timeSpentMinutes of
                None \<Rightarrow> Finite 10
              | Some t \<Rightarrow>
                  if num_gt t (Finite 0) \<and> num_gt totalQuestions (Finite 0)
                  then bonusOfAverage64 (num_div t totalQuestions)
                  else Finite 10))
          (Finite 0) (Finite 100))"


section \<open>The dialogue controller (components/LearningInterface.tsx)\<close>

subsection \<open>Component state\<close>

datatype Role = user | assistant

datatype TurnType = question | answer | explanation

datatype ConversationMessage =
  ConversationMessage (role: Role) (content: string) (turnType: TurnType)

datatype MessageType = ai_question | user_answer | ai_explanation

text \<open>A chat message as displayed. Its \<open>id\<close> and \<open>timestamp\<close> are clock readings that no
  handler reads back; they are left out.\<close>

datatype Message = Message (messageType: MessageType) (messageContent: string)

text \<open>
  A handler is a closure of the render that created it: it reads \<open>currentQuestionNumber\<close>,
  \<open>currentDifficulty\<close> and \<open>conversationHistory\<close> as they were at that render, whatever the
  state has become when it runs. The only handlers that run later than the render that made
  them are \<open>showIntroExplanation\<close> and \<open>generateNextQuestion\<close>, called from a timer or from the
  retry button; what they read is kept in a \<open>closure\<close>.
\<close>

datatype closure =
  Closure (cl_questionNumber: int) (cl_difficulty: int) (cl_history: "ConversationMessage list")

datatype retryAction = RetryIntro closure | RetryQuestion closure

text \<open>Pending \<^verbatim>\<open>setTimeout\<close> callbacks: the first question after the introduction (500 ms),
  the advance to the next question (2 s), the end of the level animation (1 s).\<close>

datatype timer = QuestionTimer closure | AdvanceTimer closure | AnimationTimer

record ui_state =
  currentQuestionText :: string
  currentQuestionNumber :: int
  currentAttempts :: int
  hintsUsed :: int
  conversationHistory :: "ConversationMessage list"
  isLoading :: bool
  showHintButton :: bool
  currentDifficulty :: int
  recentQualities :: "QualityLevel list"
  messages :: "Message list"
  userAnswer :: string
  error :: "string option"
  difficultyChanged :: bool
  exploredTopics :: "string set"
  lastErrorAction :: "retryAction option"
  hasShownIntro :: bool

definition initialState :: ui_state where
  "initialState =
     \<lparr>currentQuestionText = [], currentQuestionNumber = 1, currentAttempts = 0, hintsUsed = 0,
      conversationHistory = [], isLoading = False, showHintButton = False,
      currentDifficulty = 1, recentQualities = [], messages = [], userAnswer = [],
      error = None, difficultyChanged = False, exploredTopics = {}, lastErrorAction = None,
      hasShownIntro = False\<rparr>"

definition closure_of :: "ui_state \<Rightarrow> closure" where
  "closure_of s = Closure (currentQuestionNumber s) (currentDifficulty s) (conversationHistory s)"

text \<open>What the component gets from the navigation state.\<close>

record props =
  pdfContent :: string
  topics :: "string list"

subsection \<open>The tutor oracle as the controller sees it\<close>

text \<open>
  The controller awaits five functions of the adapter. Each either resolves to a value
  (\<open>Inr\<close>) or rejects with an error whose message is carried by \<open>Inl\<close>. The controller is
  verified against every such behaviour; every call it issues is logged.
\<close>

record tutorOracle =
  oracle_generateIntroExplanation :: "string \<Rightarrow> int \<Rightarrow> string option \<Rightarrow> string + string"
  oracle_generateSocraticQuestion ::
    "string \<Rightarrow> int \<Rightarrow> ConversationMessage list \<Rightarrow> string option \<Rightarrow> string + string"
  oracle_evaluateResponse :: "string \<Rightarrow> string \<Rightarrow> string \<Rightarrow> int \<Rightarrow> string + ResponseEvaluation"
  oracle_generateExplanation :: "string \<Rightarrow> string \<Rightarrow> string \<Rightarrow> int \<Rightarrow> string + string"
  oracle_generateHint :: "string \<Rightarrow> string \<Rightarrow> int \<Rightarrow> string \<Rightarrow> int \<Rightarrow> string + string"

datatype oracle_call =
    CallGenerateIntroExplanation string int "string option"
  | CallGenerateSocraticQuestion string int "ConversationMessage list" "string option"
  | CallEvaluateResponse string string string int
  | CallGenerateExplanation string string string int
  | CallGenerateHint string string int string int

text \<open>What a handler leaves behind: the state once its updates are applied, the oracle calls
  it issued, in order, and the timers it started.\<close>

type_synonym outcome = "ui_state \<times> oracle_call list \<times> timer list"

subsection \<open>Helpers for the source's expressions\<close>

text \<open>\<^verbatim>\<open>xs[i]\<close>: \<^verbatim>\<open>undefined\<close> (\<open>None\<close>) out of range.\<close>

definition at_index :: "'a list \<Rightarrow> int \<Rightarrow> 'a option" where
  "at_index xs i = (if 0 \<le> i \<and> i < int (length xs) then Some (xs ! nat i) else None)"

text \<open>\<^verbatim>\<open>a || b\<close> on optional strings: the empty string and \<^verbatim>\<open>undefined\<close> are falsy.\<close>

definition or_else :: "string option \<Rightarrow> string option \<Rightarrow> string option" where
  "or_else a b = (case a of Some t \<Rightarrow> if t \<noteq> [] then Some t else b | None \<Rightarrow> b)"

text \<open>\<^verbatim>\<open>xs.slice(-3)\<close>\<close>

definition lastThree :: "'a list \<Rightarrow> 'a list" where
  "lastThree xs = drop (length xs - 3) xs"

fun digitsOf :: "nat \<Rightarrow> string" where
  "digitsOf n =
     (if n < 10 then [char_of (48 + n)] else digitsOf (n div 10) @ [char_of (48 + n mod 10)])"

declare digitsOf.simps [simp del]

definition numberToString :: "int \<Rightarrow> string" where
  "numberToString i = (if i < 0 then CHR ''-'' # digitsOf (nat (- i)) else digitsOf (nat i))"

text \<open>The light bulb of the hint message (U+1F4A1), as its UTF-8 bytes.\<close>

definition lightBulb :: string where
  "lightBulb = [CHR 0xF0, CHR 0x9F, CHR 0x92, CHR 0xA1]"

definition rateLimitMessage :: "string \<Rightarrow> string" where
  "rateLimitMessage errorMessage =
     (if includes_str errorMessage ''rate limit'' \<or> includes_str errorMessage ''quota''
      then ''API rate limit reached. Please wait a moment and try again.''
      else errorMessage)"

subsection \<open>Question generation\<close>

text \<open>The index of the topic in focus and the topic handed to the oracle, as
  \<open>generateNextQuestion\<close> computes them from the question number it reads.\<close>

definition currentTopicIndex :: "string list \<Rightarrow> int \<Rightarrow> int" where
  "currentTopicIndex ts questionNumber = min ((questionNumber - 1) div 3) (int (length ts) - 1)"

definition focusTopic :: "string list \<Rightarrow> int \<Rightarrow> string option" where
  "focusTopic ts questionNumber =
     or_else (at_index ts (currentTopicIndex ts questionNumber)) (at_index ts 0)"

definition generateNextQuestion :: "tutorOracle \<Rightarrow> props \<Rightarrow> closure \<Rightarrow> ui_state \<Rightarrow> outcome" where
  "generateNextQuestion orc p cl s =
     (if pdfContent p = [] then (s, [], [])
      else
        (let s1 = s\<lparr>isLoading := True, error := None, lastErrorAction := Some (RetryQuestion cl)\<rparr>;
             s2 =
               (if length (topics p) > 0 then
                  (case at_index (topics p) (currentTopicIndex (topics p) (cl_questionNumber cl)) of
                     Some currentTopic \<Rightarrow>
                       if currentTopic \<noteq> []
                       then s1\<lparr>exploredTopics := insert currentTopic (exploredTopics s1)\<rparr>
                       else s1
                   | None \<Rightarrow> s1)
                else s1);
             focus = focusTopic (topics p) (cl_questionNumber cl);
             call = CallGenerateSocraticQuestion (pdfContent p) (cl_difficulty cl) (cl_history cl) focus
         in case oracle_generateSocraticQuestion orc (pdfContent p) (cl_difficulty cl)
                   (cl_history cl) focus of
              Inr q \<Rightarrow>
                (s2\<lparr>currentQuestionText := q,
                    messages := messages s2 @ [Message ai_question q],
                    conversationHistory :=
                      conversationHistory s2 @ [ConversationMessage assistant q question],
                    lastErrorAction := None,
                    isLoading := False\<rparr>,
                 [call], [])
            | Inl errorMessage \<Rightarrow>
                (s2\<lparr>error := Some (rateLimitMessage errorMessage), isLoading := False\<rparr>,
                 [call], [])))"

definition showIntroExplanation :: "tutorOracle \<Rightarrow> props \<Rightarrow> closure \<Rightarrow> ui_state \<Rightarrow> outcome" where
  "showIntroExplanation orc p cl s =
     (if pdfContent p = [] then (s, [], [])
      else
        (let s1 = s\<lparr>isLoading := True, error := None, lastErrorAction := Some (RetryIntro cl)\<rparr>;
             firstTopic = (if length (topics p) > 0 then at_index (topics p) 0 else None);
             call = CallGenerateIntroExplanation (pdfContent p) (cl_difficulty cl) firstTopic
         in case oracle_generateIntroExplanation orc (pdfContent p) (cl_difficulty cl) firstTopic of
              Inr introExplanation \<Rightarrow>
                (s1\<lparr>messages := messages s1 @ [Message ai_explanation introExplanation],
                    conversationHistory :=
                      conversationHistory s1
                        @ [ConversationMessage assistant introExplanation explanation],
                    hasShownIntro := True,
                    lastErrorAction := None\<rparr>,
                 [call], [QuestionTimer cl])
            | Inl errorMessage \<Rightarrow>
                (s1\<lparr>error := Some (rateLimitMessage errorMessage), isLoading := False\<rparr>,
                 [call], [])))"


subsection \<open>Difficulty adjustment\<close>

text \<open>
  \<open>checkAndAdjustDifficulty\<close> reads the difficulty \<open>d\<close> of its render and calls state setters;
  it is the state update those calls amount to, with the animation timer it starts.
\<close>

definition checkAndAdjustDifficulty ::
  "int \<Rightarrow> QualityLevel list \<Rightarrow> ui_state \<Rightarrow> ui_state \<times> timer list" where
  "checkAndAdjustDifficulty d qualities s =
     (if length qualities = 3 then
        (let allStrong = list_all (\<lambda>q. q = strong) qualities;
             allNeedsWork = list_all (\<lambda>q. q = needs_work) qualities
         in if allStrong \<and> d < 4 then
              (s\<lparr>currentDifficulty := d + 1, difficultyChanged := True, recentQualities := []\<rparr>,
               [AnimationTimer])
            else if allNeedsWork \<and> d > 1 then
              (s\<lparr>currentDifficulty := d - 1, difficultyChanged := True, recentQualities := []\<rparr>,
               [AnimationTimer])
            else (s, []))
      else (s, []))"

text \<open>
  The updater that \<open>handleSubmitAnswer\<close> gives to \<open>setRecentQualities\<close>. React runs an updater
  while it renders the component; the setters that \<open>checkAndAdjustDifficulty\<close> calls from
  inside it are queued behind the updater's own result and are applied after it. So the
  window is first set to the last three labels and the adjustment, if any, then acts on that
  state.
\<close>

definition pushQuality :: "int \<Rightarrow> QualityLevel \<Rightarrow> ui_state \<Rightarrow> ui_state \<times> timer list" where
  "pushQuality d q s =
     (let updated = recentQualities s @ [q];
          recentThree = lastThree updated;
          s1 = s\<lparr>recentQualities := recentThree\<rparr>
      in if length recentThree = 3 then checkAndAdjustDifficulty d recentThree s1 else (s1, []))"

subsection \<open>Answers, hints, sessions\<close>

definition handleAnswerChange :: "string \<Rightarrow> ui_state \<Rightarrow> ui_state" where
  "handleAnswerChange v s = s\<lparr>userAnswer := v\<rparr>"

definition handleSubmitAnswer :: "tutorOracle \<Rightarrow> props \<Rightarrow> ui_state \<Rightarrow> outcome" where
  "handleSubmitAnswer orc p s =
     (if length (trim (userAnswer s)) < 20 then (s, [], [])
      else if currentQuestionText s = [] \<or> pdfContent p = [] then (s, [], [])
      else
        (let s1 = s\<lparr>isLoading := True, error := None,
                    messages := messages s @ [Message user_answer (userAnswer s)],
                    conversationHistory :=
                      conversationHistory s @ [ConversationMessage user (userAnswer s) answer]\<rparr>;
             finally = (\<lambda>t. t\<lparr>isLoading := False, userAnswer := []\<rparr>);
             evaluateCall = CallEvaluateResponse (currentQuestionText s) (userAnswer s)
                              (pdfContent p) (currentDifficulty s)
         in case oracle_evaluateResponse orc (currentQuestionText s) (userAnswer s)
                   (pdfContent p) (currentDifficulty s) of
              Inl errorMessage \<Rightarrow> (finally (s1\<lparr>error := Some errorMessage\<rparr>), [evaluateCall], [])
            | Inr evaluation \<Rightarrow>
                (let (s2, started) = pushQuality (currentDifficulty s) (quality evaluation) s1
                 in if quality evaluation = strong then
                      (let explainCall = CallGenerateExplanation (currentQuestionText s)
                                           (userAnswer s) (pdfContent p) (currentDifficulty s)
                       in case oracle_generateExplanation orc (currentQuestionText s)
                                 (userAnswer s) (pdfContent p) (currentDifficulty s) of
                            Inl errorMessage \<Rightarrow>
                              (finally (s2\<lparr>error := Some errorMessage\<rparr>),
                               [evaluateCall, explainCall], started)
                          | Inr explained \<Rightarrow>
                              (finally
                                 (s2\<lparr>messages := messages s2 @ [Message ai_explanation explained],
                                     conversationHistory :=
                                       conversationHistory s2
                                         @ [ConversationMessage assistant explained explanation]\<rparr>),
                               [evaluateCall, explainCall],
                               started @ [AdvanceTimer (closure_of s)]))
                    else
                      (let newAttempts = currentAttempts s + 1;
                           s3 = s2\<lparr>messages :=
                                      messages s2 @ [Message ai_explanation (feedback evaluation)],
                                    conversationHistory :=
                                      conversationHistory s2
                                        @ [ConversationMessage assistant (feedback evaluation)
                                             explanation],
                                    currentAttempts := newAttempts,
                                    showHintButton := True\<rparr>
                       in (finally s3, [evaluateCall],
                           started @ (if newAttempts \<ge> 3 then [AdvanceTimer (closure_of s)] else []))))))"

text \<open>
  The callback of the two-second timer, the same after a strong answer and after the third
  attempt: reset the counters, count the question, and call the \<open>generateNextQuestion\<close> of the
  render that started the timer.
\<close>

definition advanceToNextQuestion :: "tutorOracle \<Rightarrow> props \<Rightarrow> closure \<Rightarrow> ui_state \<Rightarrow> outcome" where
  "advanceToNextQuestion orc p cl s =
     generateNextQuestion orc p cl
       (s\<lparr>currentAttempts := 0, hintsUsed := 0, showHintButton := False,
          currentQuestionNumber := currentQuestionNumber s + 1\<rparr>)"

definition handleGetHint :: "tutorOracle \<Rightarrow> props \<Rightarrow> ui_state \<Rightarrow> outcome" where
  "handleGetHint orc p s =
     (if hintsUsed s \<ge> 3 \<or> currentQuestionText s = [] \<or> pdfContent p = [] then (s, [], [])
      else
        (let s1 = s\<lparr>isLoading := True, error := None\<rparr>;
             call = CallGenerateHint (currentQuestionText s) (userAnswer s) (hintsUsed s + 1)
                      (pdfContent p) (currentDifficulty s)
         in case oracle_generateHint orc (currentQuestionText s) (userAnswer s) (hintsUsed s + 1)
                   (pdfContent p) (currentDifficulty s) of
              Inr hint \<Rightarrow>
                (let hintMessage =
                       Message ai_explanation
                         (lightBulb @ '' Hint '' @ numberToString (hintsUsed s + 1) @ ''/3: '' @ hint);
                     newHints = hintsUsed s1 + 1
                 in (s1\<lparr>messages := messages s1 @ [hintMessage],
                        hintsUsed := newHints,
                        showHintButton := (if newHints \<ge> 3 then False else showHintButton s1),
                        isLoading := False\<rparr>,
                     [call], []))
            | Inl errorMessage \<Rightarrow> (s1\<lparr>error := Some errorMessage, isLoading := False\<rparr>, [call], [])))"

text \<open>\<open>confirmed\<close> is the user's answer to the confirmation dialog.\<close>

definition handleNewSession :: "bool \<Rightarrow> ui_state \<Rightarrow> ui_state" where
  "handleNewSession confirmed s =
     (if confirmed then
        s\<lparr>messages := [], conversationHistory := [], currentQuestionNumber := 1,
          currentQuestionText := [], currentAttempts := 0, hintsUsed := 0,
          showHintButton := False, currentDifficulty := 1, recentQualities := [],
          userAnswer := [], error := None, exploredTopics := {}, difficultyChanged := False\<rparr>
      else s)"

text \<open>The retry button runs \<open>lastErrorAction\<close>; it is not shown when there is none.\<close>

definition handleRetry :: "tutorOracle \<Rightarrow> props \<Rightarrow> ui_state \<Rightarrow> outcome" where
  "handleRetry orc p s =
     (case lastErrorAction s of
        None \<Rightarrow> (s, [], [])
      | Some (RetryIntro cl) \<Rightarrow> showIntroExplanation orc p cl s
      | Some (RetryQuestion cl) \<Rightarrow> generateNextQuestion orc p cl s)"

text \<open>The effect that runs once after the first render.\<close>

definition onMount :: "tutorOracle \<Rightarrow> props \<Rightarrow> ui_state \<Rightarrow> outcome" where
  "onMount orc p s =
     (if pdfContent p \<noteq> [] \<and> \<not> hasShownIntro initialState
      then showIntroExplanation orc p (closure_of initialState) s
      else (s, [], []))"

definition fireTimer :: "tutorOracle \<Rightarrow> props \<Rightarrow> timer \<Rightarrow> ui_state \<Rightarrow> outcome" where
  "fireTimer orc p t s =
     (case t of
        QuestionTimer cl \<Rightarrow> generateNextQuestion orc p cl s
      | AdvanceTimer cl \<Rightarrow> advanceToNextQuestion orc p cl s
      | AnimationTimer \<Rightarrow> (s\<lparr>difficultyChanged := False\<rparr>, [], []))"

subsection \<open>The controller as a transition system\<close>

text \<open>
  A configuration is the component state with the timers still pending. Each event runs one
  handler to its end, with the behaviour of the oracle during that handler: a session is
  processed one call at a time. The events are enabled in every configuration, also where the
  page disables the button that triggers them, so the reachable configurations include all
  those of the running page.
\<close>

type_synonym config = "ui_state \<times> timer list"

datatype event =
    Mount tutorOracle
  | TimerFires nat tutorOracle
  | AnswerChange string
  | SubmitAnswer tutorOracle
  | GetHint tutorOracle
  | NewSession bool
  | Retry tutorOracle

definition removeAt :: "nat \<Rightarrow> 'a list \<Rightarrow> 'a list" where
  "removeAt i xs = take i xs @ drop (Suc i) xs"

definition after :: "config \<Rightarrow> outcome \<Rightarrow> config" where
  "after c out = (fst out, snd c @ snd (snd out))"

fun step :: "props \<Rightarrow> event \<Rightarrow> config \<Rightarrow> config" where
  "step p (Mount orc) (s, ts) = after (s, ts) (onMount orc p s)"
| "step p (TimerFires i orc) (s, ts) =
     (if i < length ts then after (s, removeAt i ts) (fireTimer orc p (ts ! i) s) else (s, ts))"
| "step p (AnswerChange v) (s, ts) = (handleAnswerChange v s, ts)"
| "step p (SubmitAnswer orc) (s, ts) = after (s, ts) (handleSubmitAnswer orc p s)"
| "step p (GetHint orc) (s, ts) = after (s, ts) (handleGetHint orc p s)"
| "step p (NewSession confirmed) (s, ts) = (handleNewSession confirmed s, ts)"
| "step p (Retry orc) (s, ts) = after (s, ts) (handleRetry orc p s)"

inductive reachable :: "props \<Rightarrow> config \<Rightarrow> bool" for p :: props where
  init: "reachable p (initialState, [])"
| next_step: "reachable p c \<Longrightarrow> reachable p (step p e c)"

definition run :: "props \<Rightarrow> event list \<Rightarrow> config" where
  "run p es = foldl (\<lambda>c e. step p e c) (initialState, []) es"


subsection \<open>Names for the parts of \<open>handleSubmitAnswer\<close>\<close>

text \<open>The two guards at the top of the handler, passed.\<close>

definition accepted :: "props \<Rightarrow> ui_state \<Rightarrow> bool" where
  "accepted p s =
     (20 \<le> length (trim (userAnswer s)) \<and> currentQuestionText s \<noteq> [] \<and> pdfContent p \<noteq> [])"

text \<open>The state once the answer is on display and in the history, before the oracle is asked.\<close>

definition submitted :: "ui_state \<Rightarrow> ui_state" where
  "submitted s =
     s\<lparr>isLoading := True, error := None,
       messages := messages s @ [Message user_answer (userAnswer s)],
       conversationHistory :=
         conversationHistory s @ [ConversationMessage user (userAnswer s) answer]\<rparr>"

definition evaluationCall :: "props \<Rightarrow> ui_state \<Rightarrow> oracle_call" where
  "evaluationCall p s =
     CallEvaluateResponse (currentQuestionText s) (userAnswer s) (pdfContent p) (currentDifficulty s)"

definition explanationCall :: "props \<Rightarrow> ui_state \<Rightarrow> oracle_call" where
  "explanationCall p s =
     CallGenerateExplanation (currentQuestionText s) (userAnswer s) (pdfContent p)
       (currentDifficulty s)"

definition evaluationOf :: "tutorOracle \<Rightarrow> props \<Rightarrow> ui_state \<Rightarrow> string + ResponseEvaluation" where
  "evaluationOf orc p s =
     oracle_evaluateResponse orc (currentQuestionText s) (userAnswer s) (pdfContent p)
       (currentDifficulty s)"

definition explanationOf :: "tutorOracle \<Rightarrow> props \<Rightarrow> ui_state \<Rightarrow> string + string" where
  "explanationOf orc p s =
     oracle_generateExplanation orc (currentQuestionText s) (userAnswer s) (pdfContent p)
       (currentDifficulty s)"

definition hintOf :: "tutorOracle \<Rightarrow> props \<Rightarrow> ui_state \<Rightarrow> string + string" where
  "hintOf orc p s =
     oracle_generateHint orc (currentQuestionText s) (userAnswer s) (hintsUsed s + 1)
       (pdfContent p) (currentDifficulty s)"

definition hintMessage :: "ui_state \<Rightarrow> string \<Rightarrow> Message" where
  "hintMessage s hint =
     Message ai_explanation
       (lightBulb @ '' Hint '' @ numberToString (hintsUsed s + 1) @ ''/3: '' @ hint)"

subsection \<open>A sample session\<close>

definition demoProps :: props where
  "demoProps =
     \<lparr>pdfContent = ''Cells divide by mitosis.'',
      topics = [''Mitosis'', ''Meiosis'', ''Cell cycle'']\<rparr>"

text \<open>An oracle that always answers, grading every answer \<open>q\<close>.\<close>

definition demoOracle :: "QualityLevel \<Rightarrow> tutorOracle" where
  "demoOracle q =
     \<lparr>oracle_generateIntroExplanation = (\<lambda>c d t. Inr ''Cells make copies of themselves.''),
      oracle_generateSocraticQuestion = (\<lambda>c d h t. Inr ''What is mitosis?''),
      oracle_evaluateResponse = (\<lambda>qu a c d. Inr (ResponseEvaluation q ''Can you elaborate?'')),
      oracle_generateExplanation = (\<lambda>qu a c d. Inr ''Yes. Ready for the next question?''),
      oracle_generateHint = (\<lambda>qu a n c d. Inr ''Consider the chromosomes.'')\<rparr>"

text \<open>An oracle whose evaluation call fails.\<close>

definition failingOracle :: tutorOracle where
  "failingOracle =
     (demoOracle strong)
       \<lparr>oracle_evaluateResponse := (\<lambda>qu a c d. Inl ''Failed to evaluate response: fetch failed'')\<rparr>"

definition demoAnswer :: string where
  "demoAnswer = ''It is how one cell becomes two.''"

text \<open>Twenty characters, nineteen without the space at the end.\<close>

definition paddedAnswer :: string where
  "paddedAnswer = ''Cells split in two. ''"

text \<open>Mounting the page and letting the first question arrive.\<close>

definition firstQuestion :: "event list" where
  "firstQuestion = [Mount (demoOracle strong), TimerFires 0 (demoOracle strong)]"

text \<open>A strong answer followed by the advance to the next question.\<close>

definition strongRound :: "event list" where
  "strongRound =
     [AnswerChange demoAnswer, SubmitAnswer (demoOracle strong), TimerFires 0 (demoOracle strong)]"

definition partialAttempt :: "event list" where
  "partialAttempt = [AnswerChange demoAnswer, SubmitAnswer (demoOracle partial)]"

text \<open>Two strong rounds, then the third answer typed.\<close>

definition twoStrongRounds :: "event list" where
  "twoStrongRounds = firstQuestion @ strongRound @ strongRound @ [AnswerChange demoAnswer]"

text \<open>Three strong answers to questions 1 to 3, the last advance still pending.\<close>

definition threeStrongAnswers :: "event list" where
  "threeStrongAnswers = twoStrongRounds @ [SubmitAnswer (demoOracle strong)]"

text \<open>Two partial answers to the first question, then a third answer typed.\<close>

definition twoAttempts :: "event list" where
  "twoAttempts = firstQuestion @ partialAttempt @ partialAttempt @ [AnswerChange demoAnswer]"


text \<open>The first question asked and an answer typed.\<close>

definition answerTyped :: "event list" where
  "answerTyped = firstQuestion @ [AnswerChange demoAnswer]"

text \<open>The focus topic of a question-generation call.\<close>

fun focusOfCall :: "oracle_call \<Rightarrow> string option option" where
  "focusOfCall (CallGenerateSocraticQuestion c d h t) = Some t"
| "focusOfCall _ = None"

text \<open>The oracle calls of the handler that an event runs.\<close>

fun callsOf :: "props \<Rightarrow> event \<Rightarrow> config \<Rightarrow> oracle_call list" where
  "callsOf p (Mount orc) (s, ts) = fst (snd (onMount orc p s))"
| "callsOf p (TimerFires i orc) (s, ts) =
     (if i < length ts then fst (snd (fireTimer orc p (ts ! i) s)) else [])"
| "callsOf p (AnswerChange v) (s, ts) = []"
| "callsOf p (SubmitAnswer orc) (s, ts) = fst (snd (handleSubmitAnswer orc p s))"
| "callsOf p (GetHint orc) (s, ts) = fst (snd (handleGetHint orc p s))"
| "callsOf p (NewSession confirmed) (s, ts) = []"
| "callsOf p (Retry orc) (s, ts) = fst (snd (handleRetry orc p s))"

text \<open>
  The questions requested during a session: for every question-generation call, the
  question number of the state once the handler that issued it has run, which is the number
  the page shows with that question, and the focus topic of the call.
\<close>

fun questionLog :: "props \<Rightarrow> config \<Rightarrow> event list \<Rightarrow> (int \<times> string option) list" where
  "questionLog p c [] = []"
| "questionLog p c (e # es) =
     map (\<lambda>t. (currentQuestionNumber (fst (step p e c)), t))
       (List.map_filter focusOfCall (callsOf p e c))
     @ questionLog p (step p e c) es"

text \<open>A strong answer that raises the difficulty: the animation timer was started before
  the advance timer, and both fire.\<close>

definition escalatingRound :: "event list" where
  "escalatingRound =
     [AnswerChange demoAnswer, SubmitAnswer (demoOracle strong),
      TimerFires 0 (demoOracle strong), TimerFires 0 (demoOracle strong)]"

text \<open>Questions 1 to 8 answered strongly, so that questions 1 to 9 are asked.\<close>

definition nineQuestions :: "event list" where
  "nineQuestions =
     firstQuestion @ strongRound @ strongRound @ escalatingRound
       @ strongRound @ strongRound @ escalatingRound @ strongRound @ strongRound"

section \<open>Properties of the tutor adapter\<close>

lemma includes_str_self: "includes_str p p"
  by (cases p) (simp_all add: startsWith_def)

lemma includes_str_append: "includes_str ys p \<Longrightarrow> includes_str (xs @ ys) p"
  by (induction xs) (auto simp: includes_str_self)

lemma includes_str_hd: "includes_str s p \<Longrightarrow> p \<noteq> [] \<Longrightarrow> hd p \<in> set s"
proof (induction s)
  case Nil
  then show ?case by simp
next
  case (Cons c cs)
  show ?case
  proof (cases "startsWith (c # cs) p")
    case True
    then have "take (length p) (c # cs) = p" by (simp add: startsWith_def)
    with Cons.prems(2) have "hd p = c" by (cases p) auto
    then show ?thesis by simp
  next
    case False
    with Cons show ?thesis by simp
  qed
qed

lemma toLowerCase_append: "toLowerCase (xs @ ys) = toLowerCase xs @ toLowerCase ys"
  by (simp add: toLowerCase_def)

lemma lower_not_white:
  "toLowerCaseChar c = CHR ''t'' \<or> toLowerCaseChar c = CHR ''i'' \<Longrightarrow> \<not> isWhiteSpace c"
  by (auto simp: toLowerCaseChar_def isWhiteSpace_def Let_def split: if_splits)

text \<open>Feedback in which one of the phrases occurs is not blank.\<close>

lemma hasExplanation_not_blank:
  assumes "hasExplanation fb"
  shows "\<exists>c \<in> set fb. \<not> isWhiteSpace c"
proof -
  from assms obtain ph where ph: "ph \<in> set explanationPhrases" "includes_str (toLowerCase fb) ph"
    by (auto simp: hasExplanation_def)
  then have "ph \<noteq> []" "hd ph = CHR ''t'' \<or> hd ph = CHR ''i''"
    by (auto simp: explanationPhrases_def)
  with includes_str_hd [OF ph(2)]
  have "CHR ''t'' \<in> set (toLowerCase fb) \<or> CHR ''i'' \<in> set (toLowerCase fb)"
    by auto
  then obtain c where "c \<in> set fb" "toLowerCaseChar c = CHR ''t'' \<or> toLowerCaseChar c = CHR ''i''"
    by (auto simp: toLowerCase_def)
  then show ?thesis using lower_not_white by blast
qed

lemma trimEnd_append:
  assumes "\<exists>c \<in> set fb. \<not> isWhiteSpace c"
  shows "trimEnd (p @ fb) = p @ trimEnd fb"
proof -
  from assms obtain c where "c \<in> set (rev fb)" "\<not> isWhiteSpace c" by auto
  then have "dropWhile isWhiteSpace (rev fb @ rev p) = dropWhile isWhiteSpace (rev fb) @ rev p"
    by (rule dropWhile_append1)
  then show ?thesis by (simp add: trimEnd_def)
qed

lemma trim_explorePrefix:
  assumes "hasExplanation fb"
  shows "trim (explorePrefix @ fb) = explorePrefix @ trimEnd fb"
proof -
  have "trimStart (explorePrefix @ fb) = explorePrefix @ fb"
    by (simp add: trimStart_def explorePrefix_def isWhiteSpace_def)
  then show ?thesis
    by (simp add: trim_def trimEnd_append [OF hasExplanation_not_blank [OF assms]])
qed

text \<open>
  Claim C9, as the code has it. When \<open>evaluateResponse\<close> returns an evaluation for a parsed
  reply whose feedback is the string \<open>fb\<close>: if \<open>fb\<close>, in lower case, includes one of the six
  explanation phrases, the feedback returned is \<open>fb\<close> behind the prefix
  "Let's explore this further. " with the white space at its end trimmed off; otherwise it is
  \<open>fb\<close> trimmed at both ends.
\<close>

theorem evaluateResponse_feedback:
  assumes "evaluateResponse q a c d (Inr (Inr evaluation)) = Inr r"
    and "getProperty evaluation ''feedback'' = Inr (Some (JString fb))"
  shows "feedback r = (if hasExplanation fb then explorePrefix @ trimEnd fb else trim fb)"
  using assms
  by (auto simp: evaluateResponse_def validateEvaluation_def Let_def trim_explorePrefix
      split: if_splits sum.splits option.splits bool.splits prod.splits)

theorem evaluateResponse_feedback_witness:
  "evaluateResponse ''What is mitosis?'' ''Cells divide.'' ''Notes on cells.'' 2
     (Inr (Inr (JObject [(''quality'', JString ''partial''),
                         (''feedback'', JString ''  You say it is division. Of what?'')])))
     = Inr (ResponseEvaluation partial (explorePrefix @ ''  You say it is division. Of what?''))
   \<and> hasExplanation ''  You say it is division. Of what?''"
proof -
  let ?e = "JObject [(''quality'', JString ''partial''),
                     (''feedback'', JString ''  You say it is division. Of what?'')]"
  let ?r = "ResponseEvaluation partial (explorePrefix @ ''  You say it is division. Of what?'')"
  have run: "evaluateResponse ''What is mitosis?'' ''Cells divide.'' ''Notes on cells.'' 2
     (Inr (Inr ?e)) = Inr ?r"
    by code_simp
  have fb: "getProperty ?e ''feedback'' = Inr (Some (JString ''  You say it is division. Of what?''))"
    by code_simp
  have "hasExplanation ''  You say it is division. Of what?''"
    by code_simp
  with evaluateResponse_feedback [OF run fb] run show ?thesis by simp
qed

text \<open>
  Claim C9 as stated fails where the feedback ends in white space: the feedback returned is
  then not the parsed feedback behind the prefix.
\<close>

theorem evaluateResponse_feedback_counterexample:
  "evaluateResponse ''What is mitosis?'' ''Cells divide.'' ''Notes on cells.'' 2
     (Inr (Inr (JObject [(''quality'', JString ''partial''),
                         (''feedback'', JString ''Why do you think it is so? '')])))
     = Inr (ResponseEvaluation partial (explorePrefix @ ''Why do you think it is so?''))
   \<and> hasExplanation ''Why do you think it is so? ''
   \<and> explorePrefix @ ''Why do you think it is so?'' \<noteq> explorePrefix @ ''Why do you think it is so? ''"
  by code_simp

lemma appended_phrase_included:
  "includes_str (toLowerCase (x @ '' '' @ p)) (toLowerCase p)"
proof -
  have "includes_str (toLowerCase x @ toLowerCase '' '' @ toLowerCase p) (toLowerCase p)"
    by (intro includes_str_append includes_str_self)
  then show ?thesis by (simp only: toLowerCase_append)
qed

text \<open>
  Claim C10, as the code has it. Every string that \<open>generateExplanation\<close> returns includes
  the phrase "Ready for the next question?" up to letter case; it is the cleaned text of the
  model when that includes the phrase up to letter case, and otherwise the cleaned text
  followed by a space and exactly that phrase.
\<close>

theorem generateExplanation_encouragement:
  assumes "generateExplanation q a c d reply = Inr r"
  shows "includes_str (toLowerCase r) (toLowerCase encouragementPhrase) \<and>
    (\<exists>responseText. reply = Inr responseText \<and>
       r = (let cleaned = cleanExplanation (trim responseText)
            in if includes_str (toLowerCase cleaned) (toLowerCase encouragementPhrase)
               then cleaned else cleaned @ '' '' @ encouragementPhrase))"
proof -
  from assms obtain responseText where reply: "reply = Inr responseText"
    by (auto simp: generateExplanation_def Let_def split: if_splits sum.splits)
  define cleaned where "cleaned = cleanExplanation (trim responseText)"
  from assms reply
  have r: "r = (if includes_str (toLowerCase cleaned) (toLowerCase encouragementPhrase)
               then cleaned else cleaned @ '' '' @ encouragementPhrase)"
    unfolding cleaned_def
    by (simp add: generateExplanation_def Let_def split: if_splits)
  have "includes_str (toLowerCase r) (toLowerCase encouragementPhrase)"
  proof (cases "includes_str (toLowerCase cleaned) (toLowerCase encouragementPhrase)")
    case True
    with r show ?thesis by simp
  next
    case False
    with r have "r = cleaned @ '' '' @ encouragementPhrase" by simp
    then show ?thesis by (simp only: appended_phrase_included)
  qed
  with reply r show ?thesis by (simp add: cleaned_def Let_def)
qed

theorem generateExplanation_encouragement_witness:
  "generateExplanation ''Why?'' ''Because.'' ''Notes'' 2 (Inr ''Answer: Indeed.'') =
     Inr ''Indeed. Ready for the next question?'' \<and>
   includes_str (toLowerCase ''Indeed. Ready for the next question?'')
     (toLowerCase encouragementPhrase)"
proof -
  have h: "generateExplanation ''Why?'' ''Because.'' ''Notes'' 2 (Inr ''Answer: Indeed.'') =
     Inr ''Indeed. Ready for the next question?''"
    by code_simp
  from generateExplanation_encouragement [OF h] h show ?thesis by blast
qed

text \<open>
  Claim C10 as stated fails for a text that has the phrase in another letter case: it is
  returned as it is, and the phrase itself does not occur in it.
\<close>

theorem generateExplanation_encouragement_counterexample:
  "generateExplanation ''Why?'' ''Because.'' ''Notes'' 2
     (Inr ''Well done. Are you ready for the next question?'') =
     Inr ''Well done. Are you ready for the next question?'' \<and>
   \<not> includes_str ''Well done. Are you ready for the next question?'' encouragementPhrase"
  by code_simp

section \<open>Properties of the thinking score\<close>

lemma truthy_positive: "num_gt t (Finite 0) \<Longrightarrow> truthy t"
  by (cases t) (auto simp: num_gt_def)

lemma bonusOfAverage64_chain:
  "bonusOfAverage64 a =
     (if num_ge a (Finite 2) \<and> num_le a (Finite 5) then Finite 20
      else if num_lt a (Finite 2) then Finite 10
      else if num_le a (Finite 10) then Finite 15
      else Finite 5)"
  by (cases a) (auto simp: bonusOfAverage64_def num_le_def num_ge_def)

lemma timeBonus64_eq:
  "(case t of None \<Rightarrow> Finite 10
    | Some m \<Rightarrow>
        if truthy m \<and> num_gt m (Finite 0) \<and> num_gt n (Finite 0) then
          (let avg = num_div m n
           in if num_ge avg (Finite 2) \<and> num_le avg (Finite 5) then Finite 20
              else if num_lt avg (Finite 2) then Finite 10
              else if num_le avg (Finite 10) then Finite 15
              else Finite 5)
        else Finite 10)
   = (case t of None \<Rightarrow> Finite 10
      | Some m \<Rightarrow>
          if num_gt m (Finite 0) \<and> num_gt n (Finite 0)
          then bonusOfAverage64 (num_div m n)
          else Finite 10)"
proof (cases t)
  case None
  then show ?thesis by simp
next
  case (Some m)
  have "(truthy m \<and> num_gt m (Finite 0) \<and> num_gt n (Finite 0))
          = (num_gt m (Finite 0) \<and> num_gt n (Finite 0))"
    using truthy_positive [of m] by blast
  with Some show ?thesis
    by (simp only: option.case Let_def bonusOfAverage64_chain)
qed

lemma calculateThinkingScore_guarded:
  "calculateThinkingScore c h t (Some n) = guarded_thinkingScore c h t n"
  unfolding calculateThinkingScore_def guarded_thinkingScore_def roundTo1Decimal64_def
    clamp64_def Let_def option.case
  by (simp only: timeBonus64_eq [unfolded Let_def])

text \<open>
  Claim C7, as the code has it. For all inputs the score is the specified formula, every
  operation being the binary64 one in the order of the code, with two guards: the
  correctness points are 0 unless \<open>totalQuestions > 0\<close>, and the time bonus is the flat 10
  when there is no time data or the time or \<open>totalQuestions\<close> is not above 0. The score of
  (8, 2, 25, 10) is 64 and the score of (0, 0, no time, 0) is 10; the score of
  (41, 5, no time, 80) is the binary64 number 30.7.
\<close>

theorem calculateThinkingScore_formula:
  "calculateThinkingScore c h t (Some n) = guarded_thinkingScore c h t n
   \<and> calculateThinkingScore (Finite 8) (Finite 2) (Some (Finite 25)) (Some (Finite 10)) = Finite 64
   \<and> calculateThinkingScore (Finite 0) (Finite 0) None (Some (Finite 0)) = Finite 10
   \<and> calculateThinkingScore (Finite 41) (Finite 5) None (Some (Finite 80)) = binary64 (307 / 10)"
proof -
  have "calculateThinkingScore (Finite 8) (Finite 2) (Some (Finite 25)) (Some (Finite 10)) = Finite 64"
    by code_simp
  moreover have "calculateThinkingScore (Finite 0) (Finite 0) None (Some (Finite 0)) = Finite 10"
    by code_simp
  moreover
  have "calculateThinkingScore (Finite 41) (Finite 5) None (Some (Finite 80)) = binary64 (307 / 10)"
    by code_simp
  ultimately show ?thesis
    using calculateThinkingScore_guarded [of c h t n] by simp
qed

theorem calculateThinkingScore_formula_witness:
  "guarded_thinkingScore (Finite 8) (Finite 2) (Some (Finite 25)) (Finite 10) = Finite 64
   \<and> guarded_thinkingScore (Finite 57) (Finite 0) None (Finite 400) = binary64 (37 / 2)"
proof -
  have "calculateThinkingScore (Finite 57) (Finite 0) None (Some (Finite 400)) = binary64 (37 / 2)"
    by code_simp
  with calculateThinkingScore_formula [of "Finite 8" "Finite 2" "Some (Finite 25)" "Finite 10"]
    calculateThinkingScore_formula [of "Finite 57" "Finite 0" None "Finite 400"]
  show ?thesis by simp
qed

text \<open>
  Claim C7 as stated fails in two ways. With time data and \<open>totalQuestions = 0\<close> the average
  of the specification is infinite, with the bonus 5, where the code gives the flat 10. And
  the code rounds every operation to binary64: for (41, 5, no time, 80) the correctness
  points fall just below 30.75 and the score is 30.7, where the formula in exact arithmetic
  gives 30.8.
\<close>

theorem calculateThinkingScore_counterexample:
  "calculateThinkingScore (Finite 0) (Finite 0) (Some (Finite 25)) (Some (Finite 0)) = Finite 10
   \<and> spec_thinkingScore 0 0 (Some 25) 0 = Some 5
   \<and> calculateThinkingScore (Finite 41) (Finite 5) None (Some (Finite 80)) = binary64 (307 / 10)
   \<and> spec_thinkingScore 41 5 None 80 = Some (154 / 5)
   \<and> binary64 (307 / 10) \<noteq> binary64 (154 / 5)"
proof -
  have a: "calculateThinkingScore (Finite 0) (Finite 0) (Some (Finite 25)) (Some (Finite 0)) = Finite 10"
    by code_simp
  have b: "spec_thinkingScore 0 0 (Some 25) 0 = Some 5"
    by (simp add: spec_thinkingScore_def spec_timeBonus_def exactAverage_def roundTo1Decimal_def
        clamp_def)
  have c: "calculateThinkingScore (Finite 41) (Finite 5) None (Some (Finite 80)) = binary64 (307 / 10)"
    by code_simp
  have d: "spec_thinkingScore 41 5 None 80 = Some (154 / 5)"
    by (simp add: spec_thinkingScore_def spec_timeBonus_def roundTo1Decimal_def clamp_def
        round_def)
  have e: "binary64 (307 / 10) \<noteq> binary64 (154 / 5)"
    by code_simp
  from a b c d e show ?thesis by blast
qed

section \<open>Properties of the dialogue controller\<close>

subsection \<open>The branches of the handlers\<close>

lemma checkAndAdjustDifficulty_cases:
  "checkAndAdjustDifficulty d w s = (s', ts) \<Longrightarrow>
     s' = s \<or>
     (d < 4 \<and> s' = s\<lparr>currentDifficulty := d + 1, difficultyChanged := True, recentQualities := []\<rparr>) \<or>
     (d > 1 \<and> s' = s\<lparr>currentDifficulty := d - 1, difficultyChanged := True, recentQualities := []\<rparr>)"
  by (auto simp: checkAndAdjustDifficulty_def Let_def split: if_splits)

lemma pushQuality_cases:
  assumes "pushQuality d q s = (s', ts)"
  shows "s' = s\<lparr>recentQualities := lastThree (recentQualities s @ [q])\<rparr> \<or>
     (d < 4 \<and> s' = s\<lparr>currentDifficulty := d + 1, difficultyChanged := True, recentQualities := []\<rparr>) \<or>
     (d > 1 \<and> s' = s\<lparr>currentDifficulty := d - 1, difficultyChanged := True, recentQualities := []\<rparr>)"
proof -
  define s1 where "s1 = s\<lparr>recentQualities := lastThree (recentQualities s @ [q])\<rparr>"
  from assms have "s' = s1 \<or> checkAndAdjustDifficulty d (lastThree (recentQualities s @ [q])) s1 = (s', ts)"
    by (auto simp: pushQuality_def Let_def s1_def split: if_splits)
  then show ?thesis
    using checkAndAdjustDifficulty_cases [of d "lastThree (recentQualities s @ [q])" s1 s' ts]
    by (auto simp: s1_def)
qed

lemma pushQuality_frame:
  assumes "pushQuality d q s = (s', ts)"
  shows "currentQuestionText s' = currentQuestionText s"
    and "currentQuestionNumber s' = currentQuestionNumber s"
    and "currentAttempts s' = currentAttempts s"
    and "hintsUsed s' = hintsUsed s"
    and "conversationHistory s' = conversationHistory s"
    and "messages s' = messages s"
    and "userAnswer s' = userAnswer s"
  using pushQuality_cases [OF assms] by auto

lemma pushQuality_window_cong:
  "recentQualities s = recentQualities t \<Longrightarrow>
   recentQualities (fst (pushQuality d q s)) = recentQualities (fst (pushQuality d q t))"
  by (simp add: pushQuality_def checkAndAdjustDifficulty_def Let_def)

lemma handleSubmitAnswer_rejected:
  "\<not> accepted p s \<Longrightarrow> handleSubmitAnswer orc p s = (s, [], [])"
  by (auto simp: handleSubmitAnswer_def accepted_def)

lemma handleSubmitAnswer_failed:
  assumes "accepted p s" "evaluationOf orc p s = Inl e"
  shows "handleSubmitAnswer orc p s =
           ((submitted s)\<lparr>error := Some e, isLoading := False, userAnswer := []\<rparr>,
            [evaluationCall p s], [])"
  using assms
  by (simp add: handleSubmitAnswer_def accepted_def evaluationOf_def submitted_def
      evaluationCall_def Let_def)

lemma handleSubmitAnswer_not_strong:
  assumes "accepted p s" "evaluationOf orc p s = Inr ev" "quality ev \<noteq> strong"
    and "pushQuality (currentDifficulty s) (quality ev) (submitted s) = (s2, started)"
  shows "handleSubmitAnswer orc p s =
           (s2\<lparr>messages := messages s2 @ [Message ai_explanation (feedback ev)],
               conversationHistory :=
                 conversationHistory s2 @ [ConversationMessage assistant (feedback ev) explanation],
               currentAttempts := currentAttempts s + 1, showHintButton := True,
               isLoading := False, userAnswer := []\<rparr>,
            [evaluationCall p s],
            started @ (if currentAttempts s + 1 \<ge> 3 then [AdvanceTimer (closure_of s)] else []))"
  using assms
  by (simp add: handleSubmitAnswer_def accepted_def evaluationOf_def submitted_def
      evaluationCall_def Let_def)

lemma handleSubmitAnswer_strong:
  assumes "accepted p s" "evaluationOf orc p s = Inr ev" "quality ev = strong"
    and "pushQuality (currentDifficulty s) strong (submitted s) = (s2, started)"
  shows "handleSubmitAnswer orc p s =
           (case explanationOf orc p s of
              Inl e \<Rightarrow> (s2\<lparr>error := Some e, isLoading := False, userAnswer := []\<rparr>,
                        [evaluationCall p s, explanationCall p s], started)
            | Inr ex \<Rightarrow>
                (s2\<lparr>messages := messages s2 @ [Message ai_explanation ex],
                    conversationHistory :=
                      conversationHistory s2 @ [ConversationMessage assistant ex explanation],
                    isLoading := False, userAnswer := []\<rparr>,
                 [evaluationCall p s, explanationCall p s],
                 started @ [AdvanceTimer (closure_of s)]))"
  using assms
  by (simp add: handleSubmitAnswer_def accepted_def evaluationOf_def submitted_def explanationOf_def
      evaluationCall_def explanationCall_def Let_def split: sum.splits)

lemma handleSubmitAnswer_window:
  assumes "accepted p s" "evaluationOf orc p s = Inr ev"
  shows "recentQualities (fst (handleSubmitAnswer orc p s)) =
         recentQualities (fst (pushQuality (currentDifficulty s) (quality ev) s))"
proof -
  obtain s2 started where pq: "pushQuality (currentDifficulty s) (quality ev) (submitted s) = (s2, started)"
    by (cases "pushQuality (currentDifficulty s) (quality ev) (submitted s)") auto
  have "recentQualities (submitted s) = recentQualities s" by (simp add: submitted_def)
  from pushQuality_window_cong [OF this, of "currentDifficulty s" "quality ev"] pq
  have w: "recentQualities s2 = recentQualities (fst (pushQuality (currentDifficulty s) (quality ev) s))"
    by simp
  show ?thesis
  proof (cases "quality ev = strong")
    case True
    with pq have "pushQuality (currentDifficulty s) strong (submitted s) = (s2, started)" by simp
    from handleSubmitAnswer_strong [OF assms True this] w show ?thesis
      by (cases "explanationOf orc p s") simp_all
  next
    case False
    from handleSubmitAnswer_not_strong [OF assms False pq] w show ?thesis by simp
  qed
qed


lemma handleSubmitAnswer_difficulty:
  assumes "handleSubmitAnswer orc p s = (s', calls, ts)"
  shows "currentDifficulty s' = currentDifficulty s \<or>
     (currentDifficulty s < 4 \<and> currentDifficulty s' = currentDifficulty s + 1) \<or>
     (currentDifficulty s > 1 \<and> currentDifficulty s' = currentDifficulty s - 1)"
proof (cases "accepted p s")
  case False
  from handleSubmitAnswer_rejected [OF False] assms show ?thesis by simp
next
  case True
  show ?thesis
  proof (cases "evaluationOf orc p s")
    case (Inl e)
    from handleSubmitAnswer_failed [OF True Inl] assms show ?thesis
      by (auto simp: submitted_def)
  next
    case (Inr ev)
    obtain s2 started
      where pq: "pushQuality (currentDifficulty s) (quality ev) (submitted s) = (s2, started)"
      by (cases "pushQuality (currentDifficulty s) (quality ev) (submitted s)") auto
    from pushQuality_cases [OF pq]
    have d2: "currentDifficulty s2 = currentDifficulty s \<or>
       (currentDifficulty s < 4 \<and> currentDifficulty s2 = currentDifficulty s + 1) \<or>
       (currentDifficulty s > 1 \<and> currentDifficulty s2 = currentDifficulty s - 1)"
      by (auto simp: submitted_def)
    have "currentDifficulty s' = currentDifficulty s2"
    proof (cases "quality ev = strong")
      case True
      with pq have "pushQuality (currentDifficulty s) strong (submitted s) = (s2, started)"
        by simp
      from handleSubmitAnswer_strong [OF \<open>accepted p s\<close> Inr True this] assms show ?thesis
        by (cases "explanationOf orc p s") auto
    next
      case False
      from handleSubmitAnswer_not_strong [OF \<open>accepted p s\<close> Inr False pq] assms show ?thesis
        by auto
    qed
    with d2 show ?thesis by simp
  qed
qed

lemma generateNextQuestion_difficulty:
  "generateNextQuestion orc p cl s = (s', calls, ts) \<Longrightarrow> currentDifficulty s' = currentDifficulty s"
  by (auto simp: generateNextQuestion_def Let_def split: if_splits sum.splits option.splits)

lemma showIntroExplanation_difficulty:
  "showIntroExplanation orc p cl s = (s', calls, ts) \<Longrightarrow> currentDifficulty s' = currentDifficulty s"
  by (auto simp: showIntroExplanation_def Let_def split: if_splits sum.splits)

lemma handleGetHint_difficulty:
  "handleGetHint orc p s = (s', calls, ts) \<Longrightarrow> currentDifficulty s' = currentDifficulty s"
  by (auto simp: handleGetHint_def Let_def split: if_splits sum.splits)

lemma fireTimer_difficulty:
  "fireTimer orc p t s = (s', calls, ts) \<Longrightarrow> currentDifficulty s' = currentDifficulty s"
  by (cases t) (auto simp: fireTimer_def advanceToNextQuestion_def dest: generateNextQuestion_difficulty)

lemma handleRetry_difficulty:
  "handleRetry orc p s = (s', calls, ts) \<Longrightarrow> currentDifficulty s' = currentDifficulty s"
  by (auto simp: handleRetry_def split: option.splits retryAction.splits
      dest: generateNextQuestion_difficulty showIntroExplanation_difficulty)

lemma onMount_difficulty:
  "onMount orc p s = (s', calls, ts) \<Longrightarrow> currentDifficulty s' = currentDifficulty s"
  by (auto simp: onMount_def split: if_splits dest: showIntroExplanation_difficulty)


subsection \<open>The difficulty level\<close>

lemma step_difficulty:
  assumes "step p e (s, ts) = (s', ts')"
  shows "currentDifficulty s' = currentDifficulty s
      \<or> ((\<exists>orc. e = SubmitAnswer orc) \<and> currentDifficulty s < 4 \<and> currentDifficulty s' = currentDifficulty s + 1)
      \<or> ((\<exists>orc. e = SubmitAnswer orc) \<and> currentDifficulty s > 1 \<and> currentDifficulty s' = currentDifficulty s - 1)
      \<or> (e = NewSession True \<and> currentDifficulty s' = 1)"
proof (cases e)
  case (Mount orc)
  with assms show ?thesis
    by (cases "onMount orc p s") (auto simp: after_def dest: onMount_difficulty)
next
  case (TimerFires i orc)
  with assms show ?thesis
    by (cases "fireTimer orc p (ts ! i) s") (auto simp: after_def split: if_splits dest: fireTimer_difficulty)
next
  case (AnswerChange v)
  with assms show ?thesis by (auto simp: handleAnswerChange_def)
next
  case (SubmitAnswer orc)
  obtain u calls started where h: "handleSubmitAnswer orc p s = (u, calls, started)"
    by (cases "handleSubmitAnswer orc p s") auto
  with assms SubmitAnswer have "s' = u" by (simp add: after_def)
  with handleSubmitAnswer_difficulty [OF h] SubmitAnswer show ?thesis by auto
next
  case (GetHint orc)
  with assms show ?thesis
    by (cases "handleGetHint orc p s") (auto simp: after_def dest: handleGetHint_difficulty)
next
  case (NewSession confirmed)
  with assms show ?thesis by (cases confirmed) (auto simp: handleNewSession_def)
next
  case (Retry orc)
  with assms show ?thesis
    by (cases "handleRetry orc p s") (auto simp: after_def dest: handleRetry_difficulty)
qed

lemma reachable_difficulty:
  "reachable p c \<Longrightarrow> 1 \<le> currentDifficulty (fst c) \<and> currentDifficulty (fst c) \<le> 4"
proof (induction rule: reachable.induct)
  case init
  show ?case by (simp add: initialState_def)
next
  case (next_step c e)
  obtain s ts where c: "c = (s, ts)" by (cases c)
  obtain s' ts' where c': "step p e c = (s', ts')" by (cases "step p e c")
  from step_difficulty [of p e s ts s' ts'] c c' next_step.IH show ?case by auto
qed



lemma reachable_run: "reachable p (run p es)"
proof (induction es rule: rev_induct)
  case Nil
  show ?case by (simp add: run_def reachable.init)
next
  case (snoc e es)
  then show ?case by (simp add: run_def reachable.next_step)
qed

lemma run_snoc: "run p (es @ [e]) = step p e (run p es)"
  by (simp add: run_def)

lemma checkAndAdjustDifficulty_value:
  "currentDifficulty (fst (checkAndAdjustDifficulty d w t)) =
     (if length w = 3 \<and> list_all (\<lambda>q. q = strong) w \<and> d < 4 then d + 1
      else if length w = 3 \<and> list_all (\<lambda>q. q = needs_work) w \<and> d > 1 then d - 1
      else currentDifficulty t)"
  by (simp add: checkAndAdjustDifficulty_def Let_def)

lemma pushQuality_value:
  "currentDifficulty (fst (pushQuality d q t)) =
     currentDifficulty
       (fst (checkAndAdjustDifficulty d (lastThree (recentQualities t @ [q])) t))"
  by (simp add: pushQuality_def Let_def checkAndAdjustDifficulty_value)

lemma handleSubmitAnswer_difficulty_value:
  assumes "accepted p s" and "evaluationOf orc p s = Inr ev"
  shows "currentDifficulty (fst (handleSubmitAnswer orc p s)) =
     currentDifficulty
       (fst (checkAndAdjustDifficulty (currentDifficulty s)
               (lastThree (recentQualities s @ [quality ev])) s))"
proof -
  obtain s2 started
    where pq: "pushQuality (currentDifficulty s) (quality ev) (submitted s) = (s2, started)"
    by (cases "pushQuality (currentDifficulty s) (quality ev) (submitted s)") auto
  have "currentDifficulty s2 =
     currentDifficulty
       (fst (checkAndAdjustDifficulty (currentDifficulty s)
               (lastThree (recentQualities (submitted s) @ [quality ev])) (submitted s)))"
    using pushQuality_value [of "currentDifficulty s" "quality ev" "submitted s"] pq by simp
  also have "\<dots> =
     currentDifficulty
       (fst (checkAndAdjustDifficulty (currentDifficulty s)
               (lastThree (recentQualities s @ [quality ev])) s))"
    by (simp add: checkAndAdjustDifficulty_value) (simp add: submitted_def)
  finally have d2: "currentDifficulty s2 =
     currentDifficulty
       (fst (checkAndAdjustDifficulty (currentDifficulty s)
               (lastThree (recentQualities s @ [quality ev])) s))" .
  have "currentDifficulty (fst (handleSubmitAnswer orc p s)) = currentDifficulty s2"
  proof (cases "quality ev = strong")
    case True
    with pq have "pushQuality (currentDifficulty s) strong (submitted s) = (s2, started)"
      by simp
    from handleSubmitAnswer_strong [OF assms True this] show ?thesis
      by (cases "explanationOf orc p s") auto
  next
    case False
    from handleSubmitAnswer_not_strong [OF assms False pq] show ?thesis by simp
  qed
  with d2 show ?thesis by simp
qed

lemma handleSubmitAnswer_difficulty_kept:
  assumes "\<not> accepted p s \<or> (\<exists>err. evaluationOf orc p s = Inl err)"
  shows "currentDifficulty (fst (handleSubmitAnswer orc p s)) = currentDifficulty s"
proof (cases "accepted p s")
  case False
  then show ?thesis by (simp add: handleSubmitAnswer_rejected)
next
  case True
  with assms obtain err where "evaluationOf orc p s = Inl err" by blast
  from handleSubmitAnswer_failed [OF True this] show ?thesis by (simp add: submitted_def)
qed

lemma step_NewSession_difficulty:
  "step p (NewSession True) (s, ts) = (s', ts') \<Longrightarrow> currentDifficulty s' = 1"
  by (auto simp: handleNewSession_def)

lemma step_SubmitAnswer_state:
  "step p (SubmitAnswer orc) (s, ts) = (s', ts') \<Longrightarrow> s' = fst (handleSubmitAnswer orc p s)"
  by (simp add: after_def)

text \<open>
  Claim C1. The difficulty starts at 1 and lies between 1 and 4 in every reachable
  configuration. A confirmed new session sets it to 1. An answer submission leaves it at the
  value the difficulty adjustment gives for the window with the new label, which is the old
  value, or one more from a value below 4, or one less from a value above 1; a submission
  that is rejected or whose evaluation fails leaves it unchanged. Every other step leaves it
  unchanged.
\<close>

theorem difficulty_in_range:
  assumes "reachable p (s, ts)"
  shows "currentDifficulty initialState = 1 \<and>
         1 \<le> currentDifficulty s \<and> currentDifficulty s \<le> 4 \<and>
         (\<forall>e s' ts'. step p e (s, ts) = (s', ts') \<longrightarrow>
            (e = NewSession True \<longrightarrow> currentDifficulty s' = 1)
          \<and> ((\<forall>orc. e \<noteq> SubmitAnswer orc) \<and> e \<noteq> NewSession True \<longrightarrow>
                currentDifficulty s' = currentDifficulty s)
          \<and> (\<forall>orc. e = SubmitAnswer orc \<longrightarrow>
                (currentDifficulty s' = currentDifficulty s
                 \<or> (currentDifficulty s < 4 \<and> currentDifficulty s' = currentDifficulty s + 1)
                 \<or> (currentDifficulty s > 1 \<and> currentDifficulty s' = currentDifficulty s - 1))
              \<and> (\<not> accepted p s \<or> (\<exists>err. evaluationOf orc p s = Inl err) \<longrightarrow>
                    currentDifficulty s' = currentDifficulty s)
              \<and> (\<forall>ev. accepted p s \<and> evaluationOf orc p s = Inr ev \<longrightarrow>
                    currentDifficulty s' =
                      currentDifficulty
                        (fst (checkAndAdjustDifficulty (currentDifficulty s)
                                (lastThree (recentQualities s @ [quality ev])) s)))))"
proof -
  have range: "1 \<le> currentDifficulty s \<and> currentDifficulty s \<le> 4"
    using reachable_difficulty [OF assms] by simp
  have steps: "(e = NewSession True \<longrightarrow> currentDifficulty s' = 1)
          \<and> ((\<forall>orc. e \<noteq> SubmitAnswer orc) \<and> e \<noteq> NewSession True \<longrightarrow>
                currentDifficulty s' = currentDifficulty s)
          \<and> (\<forall>orc. e = SubmitAnswer orc \<longrightarrow>
                (currentDifficulty s' = currentDifficulty s
                 \<or> (currentDifficulty s < 4 \<and> currentDifficulty s' = currentDifficulty s + 1)
                 \<or> (currentDifficulty s > 1 \<and> currentDifficulty s' = currentDifficulty s - 1))
              \<and> (\<not> accepted p s \<or> (\<exists>err. evaluationOf orc p s = Inl err) \<longrightarrow>
                    currentDifficulty s' = currentDifficulty s)
              \<and> (\<forall>ev. accepted p s \<and> evaluationOf orc p s = Inr ev \<longrightarrow>
                    currentDifficulty s' =
                      currentDifficulty
                        (fst (checkAndAdjustDifficulty (currentDifficulty s)
                                (lastThree (recentQualities s @ [quality ev])) s))))"
    if st: "step p e (s, ts) = (s', ts')" for e s' ts'
  proof (intro conjI impI allI)
    assume "e = NewSession True"
    with st show "currentDifficulty s' = 1" using step_NewSession_difficulty by blast
  next
    assume "(\<forall>orc. e \<noteq> SubmitAnswer orc) \<and> e \<noteq> NewSession True"
    with step_difficulty [OF st] show "currentDifficulty s' = currentDifficulty s" by blast
  next
    fix orc assume "e = SubmitAnswer orc"
    with step_difficulty [OF st]
    show "currentDifficulty s' = currentDifficulty s
                 \<or> (currentDifficulty s < 4 \<and> currentDifficulty s' = currentDifficulty s + 1)
                 \<or> (currentDifficulty s > 1 \<and> currentDifficulty s' = currentDifficulty s - 1)"
      by blast
  next
    fix orc assume e: "e = SubmitAnswer orc"
      and "\<not> accepted p s \<or> (\<exists>err. evaluationOf orc p s = Inl err)"
    from handleSubmitAnswer_difficulty_kept [OF this(2)] step_SubmitAnswer_state [OF st [unfolded e]]
    show "currentDifficulty s' = currentDifficulty s" by simp
  next
    fix orc ev assume e: "e = SubmitAnswer orc"
      and "accepted p s \<and> evaluationOf orc p s = Inr ev"
    then have "accepted p s" "evaluationOf orc p s = Inr ev" by simp_all
    from handleSubmitAnswer_difficulty_value [OF this] step_SubmitAnswer_state [OF st [unfolded e]]
    show "currentDifficulty s' =
                      currentDifficulty
                        (fst (checkAndAdjustDifficulty (currentDifficulty s)
                                (lastThree (recentQualities s @ [quality ev])) s))"
      by simp
  qed
  have "currentDifficulty initialState = 1" by (simp add: initialState_def)
  with range steps show ?thesis by blast
qed

theorem difficulty_in_range_witness:
  "reachable demoProps (run demoProps twoStrongRounds)
   \<and> step demoProps (SubmitAnswer (demoOracle strong)) (run demoProps twoStrongRounds)
       = run demoProps threeStrongAnswers
   \<and> currentDifficulty (fst (run demoProps twoStrongRounds)) = 1
   \<and> currentDifficulty (fst (run demoProps threeStrongAnswers)) = 2
   \<and> currentDifficulty (fst (run demoProps threeStrongAnswers)) \<le> 4
   \<and> currentDifficulty
        (fst (step demoProps (NewSession True) (run demoProps threeStrongAnswers))) = 1"
proof -
  have r2: "reachable demoProps (run demoProps twoStrongRounds)"
    by (rule reachable_run)
  have st: "step demoProps (SubmitAnswer (demoOracle strong)) (run demoProps twoStrongRounds)
       = run demoProps threeStrongAnswers"
    by (simp add: threeStrongAnswers_def run_snoc)
  have r3: "reachable demoProps
              (fst (run demoProps threeStrongAnswers), snd (run demoProps threeStrongAnswers))"
    using reachable_run [of demoProps threeStrongAnswers] by simp
  have d2: "currentDifficulty (fst (run demoProps twoStrongRounds)) = 1"
    by code_simp
  have d3: "currentDifficulty (fst (run demoProps threeStrongAnswers)) = 2"
    by code_simp
  have reset: "currentDifficulty
        (fst (step demoProps (NewSession True) (run demoProps threeStrongAnswers))) = 1"
    using difficulty_in_range [OF r3]
    by (metis prod.collapse)
  from difficulty_in_range [OF r3] r2 st d2 d3 reset show ?thesis by simp
qed

subsection \<open>The difficulty policy\<close>

text \<open>
  Claim C2. For a window \<open>w\<close> of exactly three labels and a difficulty \<open>d\<close>: if all three are
  strong and \<open>d < 4\<close>, the policy sets the difficulty to \<open>d + 1\<close> and empties the window; if all
  three are needs_work and \<open>d > 1\<close>, it sets the difficulty to \<open>d - 1\<close> and empties the window;
  in every other case it changes nothing. Pushing the label that completes \<open>w\<close> onto the
  window of a state of difficulty \<open>d\<close> therefore leaves difficulty \<open>d + 1\<close> or \<open>d - 1\<close> with an
  empty window in the first two cases, and difficulty \<open>d\<close> with the window \<open>w\<close>, all three
  labels, in the others.
\<close>

theorem difficulty_policy:
  assumes "length w = 3"
  shows "(list_all (\<lambda>q. q = strong) w \<and> d < 4 \<longrightarrow>
            (\<forall>s. fst (checkAndAdjustDifficulty d w s) =
                   s\<lparr>currentDifficulty := d + 1, difficultyChanged := True, recentQualities := []\<rparr>))
       \<and> (list_all (\<lambda>q. q = needs_work) w \<and> d > 1 \<longrightarrow>
            (\<forall>s. fst (checkAndAdjustDifficulty d w s) =
                   s\<lparr>currentDifficulty := d - 1, difficultyChanged := True, recentQualities := []\<rparr>))
       \<and> (\<not> (list_all (\<lambda>q. q = strong) w \<and> d < 4) \<and> \<not> (list_all (\<lambda>q. q = needs_work) w \<and> d > 1) \<longrightarrow>
            (\<forall>s. checkAndAdjustDifficulty d w s = (s, [])))
       \<and> (\<forall>s q. lastThree (recentQualities s @ [q]) = w \<and> currentDifficulty s = d \<longrightarrow>
            (let s' = fst (pushQuality d q s)
             in if list_all (\<lambda>q. q = strong) w \<and> d < 4
                  then currentDifficulty s' = d + 1 \<and> recentQualities s' = []
                else if list_all (\<lambda>q. q = needs_work) w \<and> d > 1
                  then currentDifficulty s' = d - 1 \<and> recentQualities s' = []
                else currentDifficulty s' = d \<and> recentQualities s' = w))"
proof -
  from assms obtain a b c where w: "w = [a, b, c]"
    by (auto simp: numeral_3_eq_3 length_Suc_conv)
  have excl: "\<not> (list_all (\<lambda>q. q = strong) w \<and> list_all (\<lambda>q. q = needs_work) w)"
    by (simp add: w)
  have up: "list_all (\<lambda>q. q = strong) w \<and> d < 4 \<longrightarrow>
            (\<forall>s. fst (checkAndAdjustDifficulty d w s) =
                   s\<lparr>currentDifficulty := d + 1, difficultyChanged := True, recentQualities := []\<rparr>)"
    using assms by (simp add: checkAndAdjustDifficulty_def Let_def)
  have down: "list_all (\<lambda>q. q = needs_work) w \<and> d > 1 \<longrightarrow>
            (\<forall>s. fst (checkAndAdjustDifficulty d w s) =
                   s\<lparr>currentDifficulty := d - 1, difficultyChanged := True, recentQualities := []\<rparr>)"
    using assms excl by (auto simp: checkAndAdjustDifficulty_def Let_def)
  have hold: "\<not> (list_all (\<lambda>q. q = strong) w \<and> d < 4) \<and> \<not> (list_all (\<lambda>q. q = needs_work) w \<and> d > 1) \<longrightarrow>
            (\<forall>s. checkAndAdjustDifficulty d w s = (s, []))"
    using assms by (simp add: checkAndAdjustDifficulty_def Let_def)
  have push: "pushQuality d q s = checkAndAdjustDifficulty d w (s\<lparr>recentQualities := w\<rparr>)"
    if "lastThree (recentQualities s @ [q]) = w" for s q
    using that assms by (simp add: pushQuality_def Let_def)
  have window: "\<forall>s q. lastThree (recentQualities s @ [q]) = w \<and> currentDifficulty s = d \<longrightarrow>
            (let s' = fst (pushQuality d q s)
             in if list_all (\<lambda>q. q = strong) w \<and> d < 4
                  then currentDifficulty s' = d + 1 \<and> recentQualities s' = []
                else if list_all (\<lambda>q. q = needs_work) w \<and> d > 1
                  then currentDifficulty s' = d - 1 \<and> recentQualities s' = []
                else currentDifficulty s' = d \<and> recentQualities s' = w)"
  proof (intro allI impI)
    fix s :: ui_state and q :: QualityLevel
    assume h: "lastThree (recentQualities s @ [q]) = w \<and> currentDifficulty s = d"
    then have pq: "pushQuality d q s = checkAndAdjustDifficulty d w (s\<lparr>recentQualities := w\<rparr>)"
      using push by blast
    consider (u) "list_all (\<lambda>q. q = strong) w \<and> d < 4"
      | (dn) "\<not> (list_all (\<lambda>q. q = strong) w \<and> d < 4)" "list_all (\<lambda>q. q = needs_work) w \<and> d > 1"
      | (h) "\<not> (list_all (\<lambda>q. q = strong) w \<and> d < 4)" "\<not> (list_all (\<lambda>q. q = needs_work) w \<and> d > 1)"
      by blast
    then show "let s' = fst (pushQuality d q s)
             in if list_all (\<lambda>q. q = strong) w \<and> d < 4
                  then currentDifficulty s' = d + 1 \<and> recentQualities s' = []
                else if list_all (\<lambda>q. q = needs_work) w \<and> d > 1
                  then currentDifficulty s' = d - 1 \<and> recentQualities s' = []
                else currentDifficulty s' = d \<and> recentQualities s' = w"
    proof cases
      case u
      with up have "fst (pushQuality d q s) = s\<lparr>recentQualities := w\<rparr>\<lparr>currentDifficulty := d + 1, difficultyChanged := True, recentQualities := []\<rparr>"
        unfolding pq by blast
      with u show ?thesis by (simp add: Let_def)
    next
      case dn
      with down have "fst (pushQuality d q s) = s\<lparr>recentQualities := w\<rparr>\<lparr>currentDifficulty := d - 1, difficultyChanged := True, recentQualities := []\<rparr>"
        unfolding pq by blast
      with dn show ?thesis by (simp add: Let_def)
    next
      case h
      with hold have "pushQuality d q s = (s\<lparr>recentQualities := w\<rparr>, [])"
        unfolding pq by blast
      with h \<open>lastThree (recentQualities s @ [q]) = w \<and> currentDifficulty s = d\<close> show ?thesis
        by (simp add: Let_def)
    qed
  qed
  from up down hold window show ?thesis by blast
qed


theorem difficulty_policy_witness:
  "length [strong, strong, strong] = 3
   \<and> fst (checkAndAdjustDifficulty 2 [strong, strong, strong] initialState)
       = initialState\<lparr>currentDifficulty := 3, difficultyChanged := True, recentQualities := []\<rparr>
   \<and> checkAndAdjustDifficulty 1 [needs_work, needs_work, needs_work]
        (initialState\<lparr>recentQualities := [needs_work, needs_work, needs_work]\<rparr>)
       = (initialState\<lparr>recentQualities := [needs_work, needs_work, needs_work]\<rparr>, [])
   \<and> checkAndAdjustDifficulty 2 [strong, partial, strong]
        (initialState\<lparr>recentQualities := [strong, partial, strong]\<rparr>)
       = (initialState\<lparr>recentQualities := [strong, partial, strong]\<rparr>, [])"
  using difficulty_policy [of "[strong, strong, strong]" 2]
    difficulty_policy [of "[needs_work, needs_work, needs_work]" 1]
    difficulty_policy [of "[strong, partial, strong]" 2]
  by simp


subsection \<open>Submitting an answer\<close>

lemma handleSubmitAnswer_accepted_calls:
  assumes "accepted p s"
  shows "\<exists>rest. fst (snd (handleSubmitAnswer orc p s)) = evaluationCall p s # rest"
proof (cases "evaluationOf orc p s")
  case (Inl e)
  from handleSubmitAnswer_failed [OF assms Inl] show ?thesis by simp
next
  case (Inr ev)
  obtain s2 started
    where pq: "pushQuality (currentDifficulty s) (quality ev) (submitted s) = (s2, started)"
    by (cases "pushQuality (currentDifficulty s) (quality ev) (submitted s)") auto
  show ?thesis
  proof (cases "quality ev = strong")
    case True
    with pq have "pushQuality (currentDifficulty s) strong (submitted s) = (s2, started)"
      by simp
    from handleSubmitAnswer_strong [OF assms Inr True this] show ?thesis
      by (cases "explanationOf orc p s") auto
  next
    case False
    from handleSubmitAnswer_not_strong [OF assms Inr False pq] show ?thesis by simp
  qed
qed

lemma handleSubmitAnswer_accepted_history:
  assumes "accepted p s"
  shows "\<exists>rest. conversationHistory (fst (handleSubmitAnswer orc p s)) =
           conversationHistory s @ ConversationMessage user (userAnswer s) answer # rest"
proof (cases "evaluationOf orc p s")
  case (Inl e)
  from handleSubmitAnswer_failed [OF assms Inl] show ?thesis by (simp add: submitted_def)
next
  case (Inr ev)
  obtain s2 started
    where pq: "pushQuality (currentDifficulty s) (quality ev) (submitted s) = (s2, started)"
    by (cases "pushQuality (currentDifficulty s) (quality ev) (submitted s)") auto
  from pushQuality_frame(5) [OF pq]
  have h2: "conversationHistory s2 =
              conversationHistory s @ [ConversationMessage user (userAnswer s) answer]"
    by (simp add: submitted_def)
  show ?thesis
  proof (cases "quality ev = strong")
    case True
    with pq have "pushQuality (currentDifficulty s) strong (submitted s) = (s2, started)"
      by simp
    from handleSubmitAnswer_strong [OF assms Inr True this] h2 show ?thesis
      by (cases "explanationOf orc p s") auto
  next
    case False
    from handleSubmitAnswer_not_strong [OF assms Inr False pq] h2 show ?thesis by simp
  qed
qed


text \<open>
  Claim C3, as the code has it. \<open>handleSubmitAnswer\<close> leaves the state as it is and calls no
  oracle exactly when the answer, trimmed of surrounding white space, has fewer than 20
  characters, or no question is pending, or the content is empty. In every other case it
  appends the answer, untrimmed, to the conversation history as a user turn and its first
  oracle call asks for the evaluation of that answer.
\<close>

theorem submitAnswer_guard:
  "(handleSubmitAnswer orc p s = (s, [], []) \<longleftrightarrow>
      length (trim (userAnswer s)) < 20 \<or> currentQuestionText s = [] \<or> pdfContent p = [])
   \<and> (20 \<le> length (trim (userAnswer s)) \<and> currentQuestionText s \<noteq> [] \<and> pdfContent p \<noteq> [] \<longrightarrow>
        (\<exists>turns calls.
           conversationHistory (fst (handleSubmitAnswer orc p s)) =
             conversationHistory s @ ConversationMessage user (userAnswer s) answer # turns
         \<and> fst (snd (handleSubmitAnswer orc p s)) =
             CallEvaluateResponse (currentQuestionText s) (userAnswer s) (pdfContent p)
               (currentDifficulty s) # calls))"
proof -
  have noop: "handleSubmitAnswer orc p s = (s, [], [])" if "\<not> accepted p s"
    using that by (rule handleSubmitAnswer_rejected)
  have op: "handleSubmitAnswer orc p s \<noteq> (s, [], [])" if "accepted p s"
    using handleSubmitAnswer_accepted_calls [OF that, of orc] by auto
  have iff: "handleSubmitAnswer orc p s = (s, [], []) \<longleftrightarrow> \<not> accepted p s"
    using noop op by blast
  have rej: "\<not> accepted p s \<longleftrightarrow>
      length (trim (userAnswer s)) < 20 \<or> currentQuestionText s = [] \<or> pdfContent p = []"
    by (auto simp: accepted_def)
  have acc: "accepted p s"
    if "20 \<le> length (trim (userAnswer s)) \<and> currentQuestionText s \<noteq> [] \<and> pdfContent p \<noteq> []"
    using that by (simp add: accepted_def)
  have first: "handleSubmitAnswer orc p s = (s, [], []) \<longleftrightarrow>
      length (trim (userAnswer s)) < 20 \<or> currentQuestionText s = [] \<or> pdfContent p = []"
    using iff rej by simp
  have second: "\<exists>turns calls.
           conversationHistory (fst (handleSubmitAnswer orc p s)) =
             conversationHistory s @ ConversationMessage user (userAnswer s) answer # turns
         \<and> fst (snd (handleSubmitAnswer orc p s)) =
             CallEvaluateResponse (currentQuestionText s) (userAnswer s) (pdfContent p)
               (currentDifficulty s) # calls"
    if "20 \<le> length (trim (userAnswer s)) \<and> currentQuestionText s \<noteq> [] \<and> pdfContent p \<noteq> []"
    using handleSubmitAnswer_accepted_calls [OF acc [OF that], of orc]
      handleSubmitAnswer_accepted_history [OF acc [OF that], of orc]
    unfolding evaluationCall_def by blast
  from first second show ?thesis by blast
qed


theorem submitAnswer_guard_witness:
  "20 \<le> length (trim (userAnswer (fst (run demoProps twoAttempts))))
   \<and> currentQuestionText (fst (run demoProps twoAttempts)) \<noteq> []
   \<and> pdfContent demoProps \<noteq> []
   \<and> handleSubmitAnswer (demoOracle partial) demoProps (fst (run demoProps twoAttempts))
       \<noteq> (fst (run demoProps twoAttempts), [], [])"
proof -
  have "20 \<le> length (trim (userAnswer (fst (run demoProps twoAttempts))))"
    by code_simp
  moreover have "currentQuestionText (fst (run demoProps twoAttempts)) \<noteq> []"
    by code_simp
  moreover have "pdfContent demoProps \<noteq> []"
    by code_simp
  ultimately show ?thesis
    using submitAnswer_guard [of "demoOracle partial" demoProps "fst (run demoProps twoAttempts)"]
    by simp
qed

text \<open>
  Claim C3 as stated fails for an answer of 20 characters that ends in a space: a question
  is pending and the content is not empty, yet nothing happens.
\<close>

theorem submitAnswer_guard_counterexample:
  "length paddedAnswer = 20
   \<and> userAnswer (fst (run demoProps (firstQuestion @ [AnswerChange paddedAnswer]))) = paddedAnswer
   \<and> currentQuestionText (fst (run demoProps (firstQuestion @ [AnswerChange paddedAnswer]))) \<noteq> []
   \<and> pdfContent demoProps \<noteq> []
   \<and> handleSubmitAnswer (demoOracle strong) demoProps
        (fst (run demoProps (firstQuestion @ [AnswerChange paddedAnswer])))
       = (fst (run demoProps (firstQuestion @ [AnswerChange paddedAnswer])), [], [])"
  by code_simp



subsection \<open>Forced advance after three attempts\<close>






subsection \<open>Failure of the evaluation\<close>

lemma accepted_cong:
  "userAnswer t = userAnswer s \<Longrightarrow> currentQuestionText t = currentQuestionText s \<Longrightarrow>
   accepted p t = accepted p s"
  by (simp add: accepted_def)

lemma evaluationOf_cong:
  "userAnswer t = userAnswer s \<Longrightarrow> currentQuestionText t = currentQuestionText s \<Longrightarrow>
   currentDifficulty t = currentDifficulty s \<Longrightarrow> evaluationOf orc p t = evaluationOf orc p s"
  by (simp add: evaluationOf_def)

text \<open>
  Claim C5. When the evaluation call of an accepted submission fails, the conversation
  history is the old one with the user's answer turn at its end, and the quality window, the
  attempt and hint counters, the difficulty and the question number are as before. When the
  same answer is typed again and submitted, and the evaluation now succeeds, the quality
  window is the one the same submission would have left without the failure: the old window
  with the one new label pushed (its last three labels), or empty where that push triggers a
  difficulty adjustment.
\<close>

theorem evaluation_failure_frame:
  assumes "accepted p s" and "evaluationOf orc p s = Inl e"
  shows "conversationHistory (fst (handleSubmitAnswer orc p s))
           = conversationHistory s @ [ConversationMessage user (userAnswer s) answer]
     \<and> recentQualities (fst (handleSubmitAnswer orc p s)) = recentQualities s
     \<and> currentAttempts (fst (handleSubmitAnswer orc p s)) = currentAttempts s
     \<and> hintsUsed (fst (handleSubmitAnswer orc p s)) = hintsUsed s
     \<and> currentDifficulty (fst (handleSubmitAnswer orc p s)) = currentDifficulty s
     \<and> currentQuestionNumber (fst (handleSubmitAnswer orc p s)) = currentQuestionNumber s
     \<and> (\<forall>orc' ev. evaluationOf orc' p s = Inr ev \<longrightarrow>
          recentQualities
            (fst (handleSubmitAnswer orc' p
                    (handleAnswerChange (userAnswer s) (fst (handleSubmitAnswer orc p s)))))
            = recentQualities (fst (handleSubmitAnswer orc' p s))
        \<and> (recentQualities (fst (handleSubmitAnswer orc' p s))
              = lastThree (recentQualities s @ [quality ev])
           \<or> recentQualities (fst (handleSubmitAnswer orc' p s)) = []))"
proof -
  define s1 where "s1 = fst (handleSubmitAnswer orc p s)"
  have s1: "s1 = (submitted s)\<lparr>error := Some e, isLoading := False, userAnswer := []\<rparr>"
    by (simp add: s1_def handleSubmitAnswer_failed [OF assms])
  have frame: "conversationHistory s1
           = conversationHistory s @ [ConversationMessage user (userAnswer s) answer]"
    "recentQualities s1 = recentQualities s" "currentAttempts s1 = currentAttempts s"
    "hintsUsed s1 = hintsUsed s" "currentDifficulty s1 = currentDifficulty s"
    "currentQuestionNumber s1 = currentQuestionNumber s"
    "currentQuestionText s1 = currentQuestionText s"
    by (simp_all add: s1 submitted_def)
  have retry: "recentQualities (fst (handleSubmitAnswer orc' p (handleAnswerChange (userAnswer s) s1)))
            = recentQualities (fst (handleSubmitAnswer orc' p s))
        \<and> (recentQualities (fst (handleSubmitAnswer orc' p s))
              = lastThree (recentQualities s @ [quality ev])
           \<or> recentQualities (fst (handleSubmitAnswer orc' p s)) = [])"
    if ev: "evaluationOf orc' p s = Inr ev" for orc' ev
  proof -
    define t where "t = handleAnswerChange (userAnswer s) s1"
    have t: "userAnswer t = userAnswer s" "currentQuestionText t = currentQuestionText s"
      "currentDifficulty t = currentDifficulty s" "recentQualities t = recentQualities s"
      by (simp_all add: t_def handleAnswerChange_def frame)
    from accepted_cong [OF t(1,2)] assms(1) have acc: "accepted p t" by simp
    from evaluationOf_cong [OF t(1-3)] ev have ev': "evaluationOf orc' p t = Inr ev" by simp
    have "recentQualities (fst (handleSubmitAnswer orc' p t))
            = recentQualities (fst (pushQuality (currentDifficulty s) (quality ev) t))"
      using handleSubmitAnswer_window [OF acc ev'] t(3) by simp
    also have "\<dots> = recentQualities (fst (pushQuality (currentDifficulty s) (quality ev) s))"
      by (rule pushQuality_window_cong [OF t(4)])
    also have "\<dots> = recentQualities (fst (handleSubmitAnswer orc' p s))"
      using handleSubmitAnswer_window [OF assms(1) ev] by simp
    finally have one: "recentQualities (fst (handleSubmitAnswer orc' p t))
            = recentQualities (fst (handleSubmitAnswer orc' p s))" .
    obtain s2 started where pq: "pushQuality (currentDifficulty s) (quality ev) s = (s2, started)"
      by (cases "pushQuality (currentDifficulty s) (quality ev) s") auto
    from pushQuality_cases [OF pq]
    have "recentQualities s2 = lastThree (recentQualities s @ [quality ev]) \<or> recentQualities s2 = []"
      by auto
    with pq handleSubmitAnswer_window [OF assms(1) ev]
    have "recentQualities (fst (handleSubmitAnswer orc' p s))
              = lastThree (recentQualities s @ [quality ev])
           \<or> recentQualities (fst (handleSubmitAnswer orc' p s)) = []"
      by simp
    with one show ?thesis by (simp add: t_def)
  qed
  from frame(1-6) retry show ?thesis unfolding s1_def by blast
qed


theorem evaluation_failure_frame_witness:
  "accepted demoProps (fst (run demoProps answerTyped))
   \<and> evaluationOf failingOracle demoProps (fst (run demoProps answerTyped))
       = Inl ''Failed to evaluate response: fetch failed''
   \<and> evaluationOf (demoOracle partial) demoProps (fst (run demoProps answerTyped))
       = Inr (ResponseEvaluation partial ''Can you elaborate?'')
   \<and> recentQualities (fst (run demoProps answerTyped)) = []
   \<and> recentQualities (fst (handleSubmitAnswer failingOracle demoProps (fst (run demoProps answerTyped)))) = []
   \<and> recentQualities
       (fst (handleSubmitAnswer (demoOracle partial) demoProps
          (handleAnswerChange (userAnswer (fst (run demoProps answerTyped)))
             (fst (handleSubmitAnswer failingOracle demoProps (fst (run demoProps answerTyped)))))))
       = [partial]"
proof -
  have w1: "accepted demoProps (fst (run demoProps answerTyped))"
    by code_simp
  have w2: "evaluationOf failingOracle demoProps (fst (run demoProps answerTyped))
       = Inl ''Failed to evaluate response: fetch failed''"
    by code_simp
  have w3: "evaluationOf (demoOracle partial) demoProps (fst (run demoProps answerTyped))
       = Inr (ResponseEvaluation partial ''Can you elaborate?'')"
    by code_simp
  have w4: "recentQualities (fst (run demoProps answerTyped)) = []"
    by code_simp
  have w5: "recentQualities
       (fst (handleSubmitAnswer (demoOracle partial) demoProps (fst (run demoProps answerTyped))))
       = [partial]"
    by code_simp
  from evaluation_failure_frame [OF w1 w2] w1 w2 w3 w4 w5 show ?thesis by simp
qed

subsection \<open>Hints\<close>

lemma no_content_no_question:
  assumes "pdfContent p = []"
  shows "generateNextQuestion orc p cl s = (s, [], [])"
    and "showIntroExplanation orc p cl s = (s, [], [])"
    and "handleSubmitAnswer orc p s = (s, [], [])"
    and "handleGetHint orc p s = (s, [], [])"
  using assms
  by (simp_all add: generateNextQuestion_def showIntroExplanation_def handleSubmitAnswer_def
      handleGetHint_def)

lemma step_no_content:
  assumes "pdfContent p = []" and "currentQuestionText s = []" and "step p e (s, ts) = (s', ts')"
  shows "currentQuestionText s' = []"
proof (cases e)
  case (Mount orc)
  with assms show ?thesis by (auto simp: after_def onMount_def)
next
  case (TimerFires i orc)
  show ?thesis
  proof (cases "i < length ts")
    case False
    with assms TimerFires show ?thesis by simp
  next
    case True
    with assms TimerFires show ?thesis
      by (cases "ts ! i")
        (auto simp: after_def fireTimer_def advanceToNextQuestion_def no_content_no_question)
  qed
next
  case (AnswerChange v)
  with assms show ?thesis by (auto simp: handleAnswerChange_def)
next
  case (SubmitAnswer orc)
  with assms show ?thesis by (auto simp: after_def no_content_no_question)
next
  case (GetHint orc)
  with assms show ?thesis by (auto simp: after_def no_content_no_question)
next
  case (NewSession confirmed)
  with assms show ?thesis by (auto simp: handleNewSession_def)
next
  case (Retry orc)
  with assms show ?thesis
    by (auto simp: after_def handleRetry_def no_content_no_question
        split: option.splits retryAction.splits)
qed

lemma reachable_question_content:
  "reachable p c \<Longrightarrow> currentQuestionText (fst c) \<noteq> [] \<Longrightarrow> pdfContent p \<noteq> []"
proof (induction rule: reachable.induct)
  case init
  then show ?case by (simp add: initialState_def)
next
  case (next_step c e)
  obtain s ts where c: "c = (s, ts)" by (cases c)
  obtain s' ts' where c': "step p e c = (s', ts')" by (cases "step p e c")
  show ?case
  proof (rule ccontr)
    assume "\<not> pdfContent p \<noteq> []"
    then have empty: "pdfContent p = []" by simp
    with next_step.IH c have "currentQuestionText s = []" by auto
    from step_no_content [OF empty this c' [unfolded c]] next_step.prems c'
    show False by simp
  qed
qed

text \<open>
  Claim C6. In every reachable configuration: if three hints are used or no question is
  pending, \<open>handleGetHint\<close> changes nothing and calls no oracle. Otherwise it requests hint
  number \<open>hintsUsed + 1\<close> and nothing else; the conversation history, the attempt counter, the
  question number, the difficulty and the quality window are unchanged; if the oracle
  answers, the hint counter grows by exactly 1 and the hint is appended to the displayed
  messages; if the oracle fails, the hint counter and the displayed messages are unchanged.
\<close>

theorem requestHint_frame:
  assumes "reachable p (s, ts)"
  shows "(hintsUsed s \<ge> 3 \<or> currentQuestionText s = [] \<longrightarrow> handleGetHint orc p s = (s, [], []))
     \<and> (hintsUsed s < 3 \<and> currentQuestionText s \<noteq> [] \<longrightarrow>
          fst (snd (handleGetHint orc p s)) =
            [CallGenerateHint (currentQuestionText s) (userAnswer s) (hintsUsed s + 1)
               (pdfContent p) (currentDifficulty s)]
        \<and> conversationHistory (fst (handleGetHint orc p s)) = conversationHistory s
        \<and> currentAttempts (fst (handleGetHint orc p s)) = currentAttempts s
        \<and> currentQuestionNumber (fst (handleGetHint orc p s)) = currentQuestionNumber s
        \<and> currentDifficulty (fst (handleGetHint orc p s)) = currentDifficulty s
        \<and> recentQualities (fst (handleGetHint orc p s)) = recentQualities s
        \<and> (\<forall>hint. hintOf orc p s = Inr hint \<longrightarrow>
              hintsUsed (fst (handleGetHint orc p s)) = hintsUsed s + 1
            \<and> messages (fst (handleGetHint orc p s)) = messages s @ [hintMessage s hint])
        \<and> (\<forall>e. hintOf orc p s = Inl e \<longrightarrow>
              hintsUsed (fst (handleGetHint orc p s)) = hintsUsed s
            \<and> messages (fst (handleGetHint orc p s)) = messages s))"
proof -
  have noop: "handleGetHint orc p s = (s, [], [])"
    if "hintsUsed s \<ge> 3 \<or> currentQuestionText s = []"
    using that by (auto simp: handleGetHint_def)
  have go: "fst (snd (handleGetHint orc p s)) =
            [CallGenerateHint (currentQuestionText s) (userAnswer s) (hintsUsed s + 1)
               (pdfContent p) (currentDifficulty s)]
        \<and> conversationHistory (fst (handleGetHint orc p s)) = conversationHistory s
        \<and> currentAttempts (fst (handleGetHint orc p s)) = currentAttempts s
        \<and> currentQuestionNumber (fst (handleGetHint orc p s)) = currentQuestionNumber s
        \<and> currentDifficulty (fst (handleGetHint orc p s)) = currentDifficulty s
        \<and> recentQualities (fst (handleGetHint orc p s)) = recentQualities s
        \<and> (\<forall>hint. hintOf orc p s = Inr hint \<longrightarrow>
              hintsUsed (fst (handleGetHint orc p s)) = hintsUsed s + 1
            \<and> messages (fst (handleGetHint orc p s)) = messages s @ [hintMessage s hint])
        \<and> (\<forall>e. hintOf orc p s = Inl e \<longrightarrow>
              hintsUsed (fst (handleGetHint orc p s)) = hintsUsed s
            \<and> messages (fst (handleGetHint orc p s)) = messages s)"
    if h: "hintsUsed s < 3 \<and> currentQuestionText s \<noteq> []"
  proof -
    from h reachable_question_content [OF assms] have pdf: "pdfContent p \<noteq> []" by simp
    show ?thesis
    proof (cases "hintOf orc p s")
      case (Inl e)
      with h pdf show ?thesis
        by (simp add: handleGetHint_def hintOf_def Let_def)
    next
      case (Inr hint)
      with h pdf show ?thesis
        by (simp add: handleGetHint_def hintOf_def hintMessage_def Let_def)
    qed
  qed
  from noop go show ?thesis by blast
qed

theorem requestHint_frame_witness:
  "reachable demoProps (run demoProps firstQuestion)
   \<and> hintsUsed (fst (run demoProps firstQuestion)) < 3
   \<and> currentQuestionText (fst (run demoProps firstQuestion)) \<noteq> []
   \<and> hintOf (demoOracle strong) demoProps (fst (run demoProps firstQuestion))
       = Inr ''Consider the chromosomes.''
   \<and> hintsUsed (fst (handleGetHint (demoOracle strong) demoProps (fst (run demoProps firstQuestion)))) = 1
   \<and> conversationHistory
        (fst (handleGetHint (demoOracle strong) demoProps (fst (run demoProps firstQuestion))))
       = conversationHistory (fst (run demoProps firstQuestion))"
proof -
  have r: "reachable demoProps
             (fst (run demoProps firstQuestion), snd (run demoProps firstQuestion))"
    using reachable_run [of demoProps firstQuestion] by simp
  have w1: "hintsUsed (fst (run demoProps firstQuestion)) = 0"
    by code_simp
  have w2: "currentQuestionText (fst (run demoProps firstQuestion)) \<noteq> []"
    by code_simp
  have w3: "hintOf (demoOracle strong) demoProps (fst (run demoProps firstQuestion))
       = Inr ''Consider the chromosomes.''"
    by code_simp
  from requestHint_frame [OF r, of "demoOracle strong"] w1 w2 w3 reachable_run [of demoProps firstQuestion]
  show ?thesis by simp
qed



subsection \<open>The topic in focus\<close>

lemma focusTopic_formula:
  assumes "ts \<noteq> []" and "\<forall>t \<in> set ts. t \<noteq> []" and "1 \<le> n"
  shows "focusTopic ts n = Some (ts ! nat (min ((n - 1) div 3) (int (length ts) - 1)))"
proof -
  define i where "i = min ((n - 1) div 3) (int (length ts) - 1)"
  from assms(1,3) have range: "0 \<le> i" "i < int (length ts)"
    by (auto simp: i_def min_def)
  then have "ts ! nat i \<in> set ts" by simp
  with assms(2) have "ts ! nat i \<noteq> []" by blast
  with range show ?thesis
    by (simp add: focusTopic_def currentTopicIndex_def at_index_def or_else_def i_def [symmetric])
qed

lemma focusTopic_three:
  assumes "a \<noteq> []" "b \<noteq> []" "c \<noteq> []"
  shows "map (focusTopic [a, b, c]) [1, 2, 3, 4, 5, 6, 7, 8, 9]
           = [Some a, Some a, Some a, Some b, Some b, Some b, Some c, Some c, Some c]"
    and "10 \<le> n \<Longrightarrow> focusTopic [a, b, c] n = Some c"
proof -
  show "map (focusTopic [a, b, c]) [1, 2, 3, 4, 5, 6, 7, 8, 9]
           = [Some a, Some a, Some a, Some b, Some b, Some b, Some c, Some c, Some c]"
    using assms by (simp add: focusTopic_def currentTopicIndex_def at_index_def or_else_def)
  assume "10 \<le> n"
  then have "min ((n - 1) div 3) 2 = 2" by simp
  with assms show "focusTopic [a, b, c] n = Some c"
    by (simp add: focusTopic_def currentTopicIndex_def at_index_def or_else_def)
qed

text \<open>
  Claim C8 against the running controller. The index is the claimed function of the
  question number that \<open>generateNextQuestion\<close> reads (the two lemmas above). But the advance
  timer calls the \<open>generateNextQuestion\<close> of the render in which the answer was submitted,
  and that closure still holds the question number from before the increment. In a session
  on three topics in which questions 1 to 8 are answered strongly, the questions numbered
  1 to 9 are requested for the first topic four times, the second three times and the third
  twice, where the claimed index gives each topic three times.
\<close>

theorem stale_question_number:
  "questionLog demoProps (initialState, []) nineQuestions =
     [(1, Some ''Mitosis''), (2, Some ''Mitosis''), (3, Some ''Mitosis''),
      (4, Some ''Mitosis''), (5, Some ''Meiosis''), (6, Some ''Meiosis''),
      (7, Some ''Meiosis''), (8, Some ''Cell cycle''), (9, Some ''Cell cycle'')]
   \<and> map (focusTopic (topics demoProps)) [1, 2, 3, 4, 5, 6, 7, 8, 9] =
     [Some ''Mitosis'', Some ''Mitosis'', Some ''Mitosis'',
      Some ''Meiosis'', Some ''Meiosis'', Some ''Meiosis'',
      Some ''Cell cycle'', Some ''Cell cycle'', Some ''Cell cycle'']"
  by code_simp

end
